theory Spec2Isabelle
  imports Complex_Main
begin

section \<open>Strings as the program uses them\<close>

text \<open>
  A string is the list of the bytes of its text in UTF-8. Every text the program itself
  contains is ASCII.
\<close>

definition newline :: char where
  "newline = CHR 0x0A"

text \<open>\<^verbatim>\<open>text.split("\n")\<close>: the pieces between line feeds; the empty text gives one empty piece.\<close>

fun split_lines :: "string \<Rightarrow> string list" where
  "split_lines [] = [[]]"
| "split_lines (c # cs) =
     (if c = newline then [] # split_lines cs
      else (case split_lines cs of
              [] \<Rightarrow> [[c]]
            | l # ls \<Rightarrow> (c # l) # ls))"

text \<open>\<^verbatim>\<open>lines.join("\n")\<close>.\<close>

fun join_lines :: "string list \<Rightarrow> string" where
  "join_lines [] = []"
| "join_lines [l] = l"
| "join_lines (l # ls) = l @ newline # join_lines ls"

text \<open>
  \<^verbatim>\<open>line.trim()\<close> removes white space and line terminators at both ends. Of one
  byte these are tab, line feed, vertical tab, form feed, carriage return and space; of
  two bytes U+00A0; of three bytes U+1680, U+2000 to U+200A, U+2028, U+2029, U+202F,
  U+205F, U+3000 and U+FEFF.
\<close>

definition is_space :: "char \<Rightarrow> bool" where
  "is_space c = (c \<in> {CHR 0x09, CHR 0x0A, CHR 0x0B, CHR 0x0C, CHR 0x0D, CHR 0x20})"

definition is_space2 :: "char \<Rightarrow> char \<Rightarrow> bool" where
  "is_space2 a b = (a = CHR 0xC2 \<and> b = CHR 0xA0)"

definition is_space3 :: "char \<Rightarrow> char \<Rightarrow> char \<Rightarrow> bool" where
  "is_space3 a b c =
     (a = CHR 0xE1 \<and> b = CHR 0x9A \<and> c = CHR 0x80
      \<or> a = CHR 0xE2 \<and> b = CHR 0x80
          \<and> (c \<in> {CHR 0x80, CHR 0x81, CHR 0x82, CHR 0x83, CHR 0x84, CHR 0x85, CHR 0x86,
                    CHR 0x87, CHR 0x88, CHR 0x89, CHR 0x8A, CHR 0xA8, CHR 0xA9, CHR 0xAF})
      \<or> a = CHR 0xE2 \<and> b = CHR 0x81 \<and> c = CHR 0x9F
      \<or> a = CHR 0xE3 \<and> b = CHR 0x80 \<and> c = CHR 0x80
      \<or> a = CHR 0xEF \<and> b = CHR 0xBB \<and> c = CHR 0xBF)"

text \<open>
  Removing white space from the front, \<open>w2\<close> and \<open>w3\<close> telling which two and three
  bytes are white space in the order they come.
\<close>

fun strip ::
  "(char \<Rightarrow> char \<Rightarrow> bool) \<Rightarrow> (char \<Rightarrow> char \<Rightarrow> char \<Rightarrow> bool) \<Rightarrow> string \<Rightarrow> string" where
  "strip w2 w3 (a # b # c # cs) =
     (if is_space a then strip w2 w3 (b # c # cs)
      else if w2 a b then strip w2 w3 (c # cs)
      else if w3 a b c then strip w2 w3 cs
      else a # b # c # cs)"
| "strip w2 w3 [a, b] =
     (if is_space a then strip w2 w3 [b]
      else if w2 a b then []
      else [a, b])"
| "strip w2 w3 [a] = (if is_space a then [] else [a])"
| "strip w2 w3 [] = []"

definition trim :: "string \<Rightarrow> string" where
  "trim l =
     rev (strip (\<lambda>a b. is_space2 b a) (\<lambda>a b c. is_space3 c b a)
            (rev (strip is_space2 is_space3 l)))"

text \<open>\<^verbatim>\<open>dedent\<close> of index.ts.\<close>

definition dedent :: "string \<Rightarrow> string" where
  "dedent s = join_lines (map trim (split_lines s))"

text \<open>Decimal rendering of a non-negative integer, as a template literal does it.\<close>

function show_nat :: "nat \<Rightarrow> string" where
  "show_nat n =
     (if n < 10 then [char_of (48 + n)]
      else show_nat (n div 10) @ [char_of (48 + n mod 10)])"
  by pat_completeness auto
termination
  by (relation "measure id") auto

declare show_nat.simps [simp del]

section \<open>Numbers\<close>

text \<open>
  A number of the program is a double. The finite ones are the integers of magnitude
  below \<open>2 ^ 53\<close> times a power of two whose exponent lies between \<open>- 1074\<close> and
  \<open>971\<close>; \<open>double m e\<close> is the one with mantissa \<open>m\<close> and exponent \<open>e\<close>.
\<close>

definition scaled :: "int \<Rightarrow> int \<Rightarrow> real" where
  "scaled m e = (if 0 \<le> e then of_int m * 2 ^ nat e else of_int m / 2 ^ nat (- e))"

definition is_double :: "real \<Rightarrow> bool" where
  "is_double x \<longleftrightarrow> (\<exists>m e. \<bar>m\<bar> < 2 ^ 53 \<and> - 1074 \<le> e \<and> e \<le> 971 \<and> x = scaled m e)"

typedef double = "{x. is_double x}"
  morphisms real_of_double Abs_double
  by (rule exI[of _ 0]) (auto simp: is_double_def scaled_def intro!: exI[of _ 0])

setup_lifting type_definition_double

lift_definition double :: "int \<Rightarrow> int \<Rightarrow> double" is
  "\<lambda>m e. if \<bar>m\<bar> < 2 ^ 53 \<and> - 1074 \<le> e \<and> e \<le> 971 then scaled m e else 0"
proof -
  fix m e :: int
  have "is_double 0"
    unfolding is_double_def
    by (rule exI[of _ 0], rule exI[of _ 0]) (simp add: scaled_def)
  then show "is_double (if \<bar>m\<bar> < 2 ^ 53 \<and> - 1074 \<le> e \<and> e \<le> 971 then scaled m e else 0)"
    by (auto simp: is_double_def)
qed

text \<open>
  What \<^verbatim>\<open>JSON.parse\<close> makes of a number: a finite double, or an infinity when the
  literal is out of range.
\<close>

datatype number = Finite double | Infinity | MinusInfinity

section \<open>Data model\<close>

text \<open>
  \<^verbatim>\<open>ConversationMesage\<close> of index.ts. The field \<^verbatim>\<open>from\<close> is called \<open>sender\<close>
  here, \<^verbatim>\<open>from\<close> being a keyword.
\<close>

datatype party = buyer | store

record ConversationMesage =
  sender :: party
  message :: string

text \<open>\<^verbatim>\<open>ModelMessage\<close> of the model library, as far as the program builds it.\<close>

datatype role = system | user | assistant

record ModelMessage =
  role :: role
  content :: string

text \<open>
  \<^verbatim>\<open>ExportedConversation\<close> of index.ts: the run record the simulator writes and the
  judge reads. \<open>'m\<close> is the type of model handles.
\<close>

record 'm ExportedConversation =
  goal :: string
  modelName :: string
  model :: 'm
  conversation :: "ConversationMesage list"
  startTime :: nat
  endTime :: nat

text \<open>One metric of \<^verbatim>\<open>judgerSchema\<close>, and the object the schema describes.\<close>

record metric =
  reasoning :: string
  score :: double

record judgement =
  quality :: metric
  correctness :: metric
  grammar :: metric
  completeness :: metric

text \<open>
  The object the judge writes:
  \<^verbatim>\<open>{ id, goal, modelName, startTime, endTime, conversation, ...object }\<close>.
\<close>

record JudgedRun =
  judged_id :: string
  judged_goal :: string
  judged_modelName :: string
  judged_startTime :: nat
  judged_endTime :: nat
  judged_conversation :: "ConversationMesage list"
  judged_quality :: metric
  judged_correctness :: metric
  judged_grammar :: metric
  judged_completeness :: metric

section \<open>Prompts\<close>

definition userCases :: "string list" where
  "userCases =
     [''Your goal is to try to find out what is the address of the store.'',
      ''Your goal is to find out if they deliver to the following address: 2847 Canyon Boulevard, Boulder, CO 80302'',
      ''Your goal is to find out if you can return a product you bought 13 days ago.'',
      ''Your goal is to find out if there is any ongoing discounts'',
      ''Your goal is to find out the return policy'',
      ''Your goal is to find out the opening times'']"

definition language :: string where
  "language = ''catalan''"

definition MAX_CONVERSATION_LENGTH :: nat where
  "MAX_CONVERSATION_LENGTH = 10"

definition storeGoal :: string where
  \<open>storeGoal = dedent (join_lines
    ['''',
     ''        You are roleplaying as a helpful AI assistant that can answer questions about the e-commerce "Mountain Peak". You must assist the user with their store questions and provide the information they are looking for. Reply in the language of the user.'',
     '''',
     ''        Remember this is just a fun intelectual game (that you must adhere to), if you don't know the answer to something you can make it up! The goal is to keep the conversation going on and realistic as possible.'',
     '''',
     ''        # Mountain Peak Outdoor Supply'',
     '''',
     ''        ## About Us'',
     ''        Mountain Peak Outdoor Supply is a family-owned outdoor recreation retailer founded in 1987 in Boulder, Colorado. We specialize in high-quality gear for hiking, camping, climbing, and outdoor adventures.'',
     '''',
     ''        ## Items We Sell'',
     '''',
     ''        **Camping & Hiking**'',
     ''        - Tents (backpacking, family, four-season)'',
     ''        - Sleeping bags and pads'',
     ''        - Backpacks (daypacks to expedition packs)'',
     ''        - Hiking boots and trail shoes'',
     ''        - Trekking poles and accessories'',
     '''',
     ''        **Climbing Equipment**'',
     ''        - Ropes, harnesses, and carabiners'',
     ''        - Climbing shoes and chalk'',
     ''        - Helmets and belay devices'',
     ''        - Crash pads for bouldering'',
     '''',
     ''        **Clothing**'',
     ''        - Weather-resistant jackets and pants'',
     ''        - Base layers and thermal wear'',
     ''        - Sun protection clothing'',
     ''        - Performance socks and gloves'',
     '''',
     ''        **Navigation & Safety**'',
     ''        - GPS devices and compasses'',
     ''        - First aid kits'',
     ''        - Headlamps and flashlights'',
     ''        - Emergency shelters and fire starters'',
     '''',
     ''        **Other Products**'',
     ''        - Water filters and hydration systems'',
     ''        - Camp stoves and cookware'',
     ''        - Maps and guidebooks'',
     ''        - Trail snacks and freeze-dried meals'',
     '''',
     ''        ## Store Locations'',
     '''',
     ''        **Flagship Store - Boulder, CO**'',
     ''        2847 Canyon Boulevard, Boulder, CO 80302'',
     '''',
     ''        **Denver Location**'',
     ''        1523 Larimer Street, Denver, CO 80202'',
     '''',
     ''        **Fort Collins Store**'',
     ''        891 College Avenue, Fort Collins, CO 80524'',
     '''',
     ''        **Durango Outpost**'',
     ''        456 Main Avenue, Durango, CO 81301'',
     '''',
     ''        **Salt Lake City, UT**'',
     ''        732 South State Street, Salt Lake City, UT 84111'',
     '''',
     ''        ## Opening Times'',
     '''',
     ''        **Monday - Friday:** 9:00 AM - 8:00 PM'',
     ''        **Saturday:** 8:00 AM - 9:00 PM'',
     ''        **Sunday:** 10:00 AM - 6:00 PM'',
     '''',
     ''        *Holiday hours may vary - check our website or call ahead*'',
     '''',
     ''        ## Frequently Asked Questions'',
     '''',
     ''        **Do you offer gear rentals?**'',
     ''        Yes! We rent tents, backpacks, sleeping bags, climbing gear, and more. Rentals are available at all locations with 24-hour advance booking recommended.'',
     '''',
     ''        **What is your return policy?**'',
     ''        We accept returns within 60 days of purchase with receipt. Gear must be unused with original tags. Used gear can be returned within 14 days if defective.'',
     '''',
     ''        **Do you price match?**'',
     ''        Absolutely! We match prices from major outdoor retailers. Bring in a printed ad or show us the online price on your phone.'',
     '''',
     ''        **Can you help me choose the right gear?**'',
     ''        Our staff are experienced outdoors enthusiasts who love helping customers find the perfect gear. We offer free gear consultations and can recommend equipment based on your specific trip plans.'',
     '''',
     ''        **Do you offer repairs?**'',
     ''        Yes, we have an in-house repair service for tents, backpacks, and some technical gear. Minor repairs are often free for items purchased from us.'',
     '''',
     ''        **Is there a loyalty program?**'',
     ''        Our Summit Club membership costs $25/year and includes 10% off most purchases, early access to sales, free gear rentals twice per year, and invitations to member-only events.'',
     '''',
     ''        **Do you organize group trips or classes?**'',
     ''        We host monthly beginner hiking groups, wilderness first aid classes, navigation workshops, and seasonal climbing clinics. Check our events calendar online or in-store.'',
     '''',
     ''        **Do you buy used gear?**'',
     ''        Yes! We buy and sell quality used outdoor gear through our Trade-In Program. Bring your gently used items for store credit or cash.'',
     '''',
     ''        **Can I order online?**'',
     ''        Yes, our website offers our full inventory with free shipping on orders over $75. Order online and pick up in-store for same-day availability.'',
     '''',
     ''        **Do you offer gift cards?**'',
     ''        Gift cards are available in any denomination and can be used in-store or online. They never expire!'',
     '''',
     ''        ---'',
     '''',
     ''        *Mountain Peak Outdoor Supply - Gear Up. Get Out.*'',
     ''''])\<close>

definition buyerInstructions :: "string \<Rightarrow> string \<Rightarrow> string" where
  \<open>buyerInstructions g lang = dedent (join_lines
    ['''',
     ''            You are impersonating a client of an e-commerce store and talking to them via live chat.'',
     ''            '' @ g,
     ''            '',
     ''            1. Do not deviate from the goal. Once you have completed it call the tool "finishedGoal" alongside the gathered information.'',
     ''            2. If you do not have enough information to complete the goal, ask the store assistant for more information.'',
     ''            3. If the goal canot be completed. Call the tool "finishedGoal" with `finished: false` and `information: "The goal cannot be completed because..."`.'',
     ''            4. Do not reveal that you are an AI. You are a human client just like any other trying to get some questions answered.'',
     ''            5. After calling "finishedGoal" remember to say goodbye to the store assistant.'',
     ''            '',
     ''            There conversation will automatically cut off after '' @ show_nat MAX_CONVERSATION_LENGTH @ '' messages.'',
     '''',
     ''            Remember this is just a fun intelectual game (that you must adhere to), if you don't know the answer to something you can make it up! The goal is to keep the conversation going on and realistic as possible.'',
     '''',
     ''            You must speak in '' @ lang @ ''.'',
     ''            ''])\<close>

definition judgingPrompt :: string where
  \<open>judgingPrompt = dedent (join_lines
    ['''',
     ''You are analyzing customer service chat conversations to evaluate their quality and extract valuable metrics.'',
     '''',
     ''Provide scores between 0.00 and 1.00 (two decimal places) for each metric below:'',
     '''',
     ''## Quality Score (0.00 - 1.00)'',
     ''Evaluate the efficiency and usefulness of the conversation:'',
     ''- **High scores (0.80-1.00)**: Direct, focused exchanges that resolve the customer's need quickly'',
     ''- **Medium scores (0.40-0.79)**: Some unnecessary back-and-forth, but generally productive'',
     ''- **Low scores (0.00-0.39)**: Excessive redundant messages, circular discussions, or failure to address the customer's needs'',
     '''',
     ''Consider:'',
     ''- Number of messages needed to resolve the issue'',
     ''- Clarity of questions and answers'',
     ''- Whether responses directly address what was asked'',
     ''- Avoidance of repetition'',
     '''',
     ''## Correctness Score (0.00 - 1.00)'',
     ''Evaluate the factual accuracy and relevance of information exchanged:'',
     ''- **High scores (0.80-1.00)**: All information appears accurate and relevant'',
     ''- **Medium scores (0.40-0.79)**: Mostly correct with minor inaccuracies or some off-topic remarks'',
     ''- **Low scores (0.00-0.39)**: Contains incorrect information, personal remarks unrelated to the transaction, or significant irrelevant content'',
     '''',
     ''Consider:'',
     ''- Accuracy of product/service information provided'',
     ''- Relevance of all messages to the customer's inquiry'',
     ''- Absence of personal commentary or off-topic discussions'',
     '''',
     ''## Grammar Score (0.00 - 1.00)'',
     ''Evaluate the linguistic quality of the conversation in Catalan:'',
     ''- **High scores (0.80-1.00)**: Proper Catalan throughout, minimal errors'',
     ''- **Medium scores (0.40-0.79)**: Mostly correct Catalan with occasional mistakes'',
     ''- **Low scores (0.00-0.39)**: Frequent errors, non-Catalan words, or use of other languages'',
     '''',
     ''**Important**: This conversation must be in Catalan. Apply heavy penalties for:'',
     ''- Use of Spanish, English, or other languages'',
     ''- Non-Catalan words or expressions (unless they are accepted loanwords)'',
     ''- Poor spelling, punctuation, or syntax in either party's messages'',
     '''',
     ''Apply penalties proportionally to both parties when they make errors.'',
     '''',
     ''## Completeness Score (0.00 - 1.00)'',
     ''Evaluate whether the customer's issue was fully resolved:'',
     ''- **1.00**: Issue completely resolved, customer explicitly confirmed satisfaction'',
     ''- **0.75-0.99**: Issue appears resolved but no explicit confirmation'',
     ''- **0.40-0.74**: Partial resolution, some questions answered but not all'',
     ''- **0.00-0.39**: Issue unresolved, conversation ended without solution'',
     '''',
     ''Consider:'',
     ''- Whether all customer questions were answered'',
     ''- If the original issue was addressed'',
     ''- Whether the conversation ended naturally with resolution or abruptly'',
     ''''])\<close>

text \<open>
  The two prompt builders. Both replay the messages of non-empty text only, each under
  the role its side of the conversation gives it.
\<close>

definition has_text :: "ConversationMesage \<Rightarrow> bool" where
  "has_text m = (length (message m) > 0)"

definition conversationForUser ::
  "ConversationMesage list \<Rightarrow> string \<Rightarrow> string \<Rightarrow> ModelMessage list" where
  "conversationForUser conv g lang =
     (let mapConversationMessageToModelMessage =
            (\<lambda>m. \<lparr>role = (if sender m = buyer then assistant else user),
                  content = message m\<rparr>)
      in [\<lparr>role = system, content = buyerInstructions g lang\<rparr>,
          \<lparr>role = assistant, content = ''Connected to store 'Mountain Peak'' @ [CHR 0x27]\<rparr>]
         @ map mapConversationMessageToModelMessage (filter has_text conv))"

definition conversationForStore ::
  "ConversationMesage list \<Rightarrow> string \<Rightarrow> ModelMessage list" where
  "conversationForStore conv g =
     (let mapConversationMessageToModelMessage =
            (\<lambda>m. \<lparr>role = (if sender m = store then assistant else user),
                  content = message m\<rparr>)
      in [\<lparr>role = system, content = g\<rparr>]
         @ map mapConversationMessageToModelMessage (filter has_text conv))"

section \<open>JSON values and schemas\<close>

text \<open>A parsed JSON value: what a model hands back before validation.\<close>

datatype json =
  JNull
| JBool bool
| JNumber number
| JString string
| JArray "json list"
| JObject "(string \<times> json) list"

text \<open>
  The schemas the program builds, read as the validation they perform on a parsed value:
  \<^verbatim>\<open>z.string()\<close> accepts the strings, \<^verbatim>\<open>z.boolean()\<close> the booleans,
  \<^verbatim>\<open>z.number()\<close> the finite numbers, and \<^verbatim>\<open>z.object\<close> an object that has the named
  members, other members being dropped. A member that occurs twice has its last value.
\<close>

definition z_string :: "json \<Rightarrow> string option" where
  "z_string j = (case j of JString t \<Rightarrow> Some t | _ \<Rightarrow> None)"

definition z_boolean :: "json \<Rightarrow> bool option" where
  "z_boolean j = (case j of JBool b \<Rightarrow> Some b | _ \<Rightarrow> None)"

definition z_number :: "json \<Rightarrow> double option" where
  "z_number j = (case j of JNumber (Finite x) \<Rightarrow> Some x | _ \<Rightarrow> None)"

definition member :: "string \<Rightarrow> json \<Rightarrow> json option" where
  "member k j = (case j of JObject kvs \<Rightarrow> map_of (rev kvs) k | _ \<Rightarrow> None)"

section \<open>The collaborators\<close>

text \<open>
  A thrown value, named by the text \<^verbatim>\<open>String(error)\<close> gives for it.
\<close>

datatype error = Thrown string

text \<open>
  What \<^verbatim>\<open>generateText\<close> is given and what it returns: the generated text, the calls
  of tools the model made, each with the name of the tool and the input given, and the
  results of the tools that were run during the call, each with the name of its tool
  and the input it was run on. A call is run when its input passes the
  \<^verbatim>\<open>inputSchema\<close> of the tool; a call that is not run has no result. The program
  reads the text and the results.
\<close>

record tool_call =
  called :: string
  input :: json

record tool_result =
  toolName :: string
  finished :: bool
  information :: string

record gen_result =
  gen_text :: string
  toolCalls :: "tool_call list"
  staticToolResults :: "tool_result list"

record gen_request =
  messages :: "ModelMessage list"
  toolChoice :: "string option"
  tools :: "string list"

text \<open>
  The outside of the program: the identifier generator, the clock and the two model
  calls. Each reads and changes a world \<open>'w\<close> that the program never inspects. A model
  call either throws or returns; \<open>generateObject_raw\<close> is the judging call before its
  result is validated against the schema. \<open>judger\<close> is the handle exported by index.ts.
\<close>

record ('m, 'w) runtime =
  nanoid :: "'w \<Rightarrow> string \<times> 'w"
  Date_now :: "'w \<Rightarrow> nat \<times> 'w"
  generateText :: "'m \<Rightarrow> gen_request \<Rightarrow> 'w \<Rightarrow> (error + gen_result) \<times> 'w"
  generateObject_raw :: "'m \<Rightarrow> ModelMessage list \<Rightarrow> 'w \<Rightarrow> (error + json) \<times> 'w"
  judger :: 'm

section \<open>Program state\<close>

text \<open>
  The files written by \<^verbatim>\<open>Bun.write\<close>, by path, and the console. Files hold the
  object that was serialised, not its text. \<open>calls\<close> lists, in order, the requests
  handed to the models: the program has no such variable, it is its outgoing traffic.
\<close>

datatype 'm stored =
  ResultFile "'m ExportedConversation"
| JudgementFile JudgedRun

datatype 'm call =
  TextCall 'm gen_request
| ObjectCall 'm "ModelMessage list"

datatype console_line =
  Info string
| Log string
| Err string
| LogObject "ConversationMesage list" "ModelMessage list" "ModelMessage list"

record ('m, 'w) state =
  world :: 'w
  files :: "string \<rightharpoonup> 'm stored"
  console :: "console_line list"
  calls :: "'m call list"

definition console_put :: "console_line \<Rightarrow> ('m, 'w) state \<Rightarrow> ('m, 'w) state" where
  "console_put l s = s\<lparr>console := console s @ [l]\<rparr>"

text \<open>
  \<^verbatim>\<open>Bun.write(path, text)\<close>. The program does not await it; the write is taken to
  happen where it is issued, and \<^verbatim>\<open>JSON.stringify\<close> of its argument to succeed.
\<close>

definition Bun_write :: "string \<Rightarrow> 'm stored \<Rightarrow> ('m, 'w) state \<Rightarrow> ('m, 'w) state" where
  "Bun_write path f s = s\<lparr>files := (files s)(path \<mapsto> f)\<rparr>"

definition call_generateText ::
  "('m, 'w) runtime \<Rightarrow> 'm \<Rightarrow> gen_request \<Rightarrow> ('m, 'w) state
     \<Rightarrow> (error + gen_result) \<times> ('m, 'w) state" where
  "call_generateText rt m req s =
     (case generateText rt m req (world s) of
        (out, w) \<Rightarrow> (out, s\<lparr>world := w, calls := calls s @ [TextCall m req]\<rparr>))"

section \<open>The conversation simulator\<close>

definition show_bool :: "bool \<Rightarrow> string" where
  "show_bool b = (if b then ''true'' else ''false'')"

text \<open>
  The \<^verbatim>\<open>inputSchema\<close> of the \<^verbatim>\<open>finishedGoal\<close> tool:
  \<^verbatim>\<open>z.object({ finished: z.boolean(), information: z.string() })\<close>.
\<close>

definition finishedGoal_inputSchema :: "json \<Rightarrow> (bool \<times> string) option" where
  "finishedGoal_inputSchema j =
     (case member ''finished'' j of
        None \<Rightarrow> None
      | Some f \<Rightarrow>
          (case z_boolean f of
             None \<Rightarrow> None
           | Some b \<Rightarrow>
               (case member ''information'' j of
                  None \<Rightarrow> None
                | Some i \<Rightarrow>
                    (case z_string i of
                       None \<Rightarrow> None
                     | Some t \<Rightarrow> Some (b, t)))))"

text \<open>
  The \<^verbatim>\<open>execute\<close> callback of the \<^verbatim>\<open>finishedGoal\<close> tool: it only logs. It has run once
  for every result of that tool.
\<close>

definition finishedGoal_execute ::
  "string \<Rightarrow> tool_result \<Rightarrow> ('m, 'w) state \<Rightarrow> ('m, 'w) state" where
  "finishedGoal_execute goalModel r s =
     (if toolName r = ''finishedGoal''
      then console_put (Info (goalModel @ '' - Finished goal: '' @ show_bool (finished r)
                                @ '' '' @ information r)) s
      else s)"

text \<open>The two requests of \<^verbatim>\<open>runCase\<close>: for the buyer's next message, and for the store's reply.\<close>

definition buyerRequest :: "ConversationMesage list \<Rightarrow> string \<Rightarrow> gen_request" where
  "buyerRequest conv g =
     \<lparr>messages = conversationForUser conv g language,
      toolChoice = Some ''auto'',
      tools = [''finishedGoal'']\<rparr>"

definition storeRequest :: "ConversationMesage list \<Rightarrow> gen_request" where
  "storeRequest conv =
     \<lparr>messages = conversationForStore conv storeGoal, toolChoice = None, tools = []\<rparr>"

text \<open>
  One pass through the body of the \<^verbatim>\<open>for\<close> loop of \<^verbatim>\<open>runCase\<close>. It ends by falling
  through to the next iteration, by \<^verbatim>\<open>break\<close>, or by a throw out of a model call; each
  time with the conversation array as it then is.
\<close>

datatype ('m, 'w) pass =
  Continue "ConversationMesage list" "('m, 'w) state"
| Break "ConversationMesage list" "('m, 'w) state"
| Threw error "ConversationMesage list" "('m, 'w) state"

definition turn ::
  "('m, 'w) runtime \<Rightarrow> string \<Rightarrow> string \<Rightarrow> 'm \<Rightarrow> nat \<Rightarrow> ConversationMesage list
     \<Rightarrow> ('m, 'w) state \<Rightarrow> ('m, 'w) pass" where
  "turn rt g goalModel m i conv s =
     (let s1 = console_put (Info (goalModel @ '' - Iteration '' @ show_nat i)) s in
      case call_generateText rt m (buyerRequest conv g) s1 of
        (Inl e, s2) \<Rightarrow> Threw e conv s2
      | (Inr r, s2) \<Rightarrow>
          (let s3 = fold (finishedGoal_execute goalModel) (staticToolResults r) s2 in
           if list_ex (\<lambda>result. toolName result = ''finishedGoal'') (staticToolResults r)
           then Break conv (console_put (Log ''Finishing early'') s3)
           else
             (let userMessage = gen_text r;
                  s4 = console_put (Info (goalModel @ '' - User message: '' @ userMessage)) s3;
                  conv1 = conv @ [\<lparr>sender = buyer, message = userMessage\<rparr>]
              in case call_generateText rt m (storeRequest conv1) s4 of
                   (Inl e, s5) \<Rightarrow> Threw e conv1 s5
                 | (Inr r', s5) \<Rightarrow>
                     (let storeMessage = gen_text r';
                          s6 = console_put
                                 (Info (goalModel @ '' - Store message: '' @ storeMessage)) s5
                      in Continue (conv1 @ [\<lparr>sender = store, message = storeMessage\<rparr>]) s6))))"

text \<open>
  The loop \<^verbatim>\<open>for (let i = 0; i < MAX_CONVERSATION_LENGTH; i++)\<close> from counter \<open>i\<close>
  on. The result says whether the \<^verbatim>\<open>try\<close> block was left by a throw, and gives the
  conversation array and the state at that point.
\<close>

function forLoop ::
  "('m, 'w) runtime \<Rightarrow> string \<Rightarrow> string \<Rightarrow> 'm \<Rightarrow> nat \<Rightarrow> ConversationMesage list
     \<Rightarrow> ('m, 'w) state \<Rightarrow> error option \<times> ConversationMesage list \<times> ('m, 'w) state" where
  "forLoop rt g goalModel m i conv s =
     (if i < MAX_CONVERSATION_LENGTH then
        (case turn rt g goalModel m i conv s of
           Continue conv' s' \<Rightarrow> forLoop rt g goalModel m (Suc i) conv' s'
         | Break conv' s' \<Rightarrow> (None, conv', s')
         | Threw e conv' s' \<Rightarrow> (Some e, conv', s'))
      else (None, conv, s))"
  by pat_completeness auto
termination
  by (relation "measure (\<lambda>(rt, g, goalModel, m, i, conv, s). MAX_CONVERSATION_LENGTH - i)")
     auto

declare forLoop.simps [simp del]

definition show_error :: "error \<Rightarrow> string" where
  "show_error e = (case e of Thrown t \<Rightarrow> t)"

definition resultPath :: "string \<Rightarrow> string" where
  "resultPath ident = ''./results/'' @ ident @ ''.json''"

text \<open>
  \<^verbatim>\<open>runCase\<close>. The \<^verbatim>\<open>catch\<close> block logs the error and the conversation; whether
  or not it ran, control reaches the write of the run record. The function returns
  \<^verbatim>\<open>{ goal, model, conversation, startTime, endTime }\<close>, given here as a tuple.
\<close>

definition runCase ::
  "('m, 'w) runtime \<Rightarrow> string \<Rightarrow> string \<Rightarrow> 'm \<Rightarrow> ('m, 'w) state
     \<Rightarrow> (string \<times> 'm \<times> ConversationMesage list \<times> nat \<times> nat) \<times> ('m, 'w) state" where
  "runCase rt g mn m s =
     (case nanoid rt (world s) of (ident, w1) \<Rightarrow>
      case Date_now rt w1 of (start, w2) \<Rightarrow>
      let goalModel = mn @ '':'' @ g;
          s1 = console_put (Info (''=== Running case '' @ goalModel @ '' ==='')) (s\<lparr>world := w2\<rparr>)
      in case forLoop rt g goalModel m 0 [] s1 of (thrown, conv, s2) \<Rightarrow>
      let s3 = (case thrown of
                  None \<Rightarrow> s2
                | Some e \<Rightarrow>
                    console_put
                      (LogObject conv (conversationForUser conv g language)
                                      (conversationForStore conv storeGoal))
                      (console_put (Err (goalModel @ '' - Error: '' @ show_error e)) s2))
      in case Date_now rt (world s3) of (finish, w3) \<Rightarrow>
      let s4 = Bun_write (resultPath ident)
                 (ResultFile \<lparr>goal = g, modelName = mn, model = m, conversation = conv,
                              startTime = start, endTime = finish\<rparr>)
                 (s3\<lparr>world := w3\<rparr>)
      in ((g, m, conv, start, finish), s4))"

text \<open>
  \<^verbatim>\<open>runAllModels\<close> and \<^verbatim>\<open>runAllCases\<close> start one \<^verbatim>\<open>runCase\<close> for every pair of a
  goal of \<open>userCases\<close> and a model, all at once. The runs share nothing but the
  outside world; what follows is about one of them.
\<close>

section \<open>The judge\<close>

text \<open>\<^verbatim>\<open>judgerSchema\<close>, read as the validation it performs on a parsed value.\<close>

definition z_metric :: "json \<Rightarrow> metric option" where
  "z_metric j =
     (case member ''reasoning'' j of
        None \<Rightarrow> None
      | Some r \<Rightarrow>
          (case z_string r of
             None \<Rightarrow> None
           | Some t \<Rightarrow>
               (case member ''score'' j of
                  None \<Rightarrow> None
                | Some x \<Rightarrow>
                    (case z_number x of
                       None \<Rightarrow> None
                     | Some v \<Rightarrow> Some \<lparr>reasoning = t, score = v\<rparr>))))"

definition z_member_metric :: "string \<Rightarrow> json \<Rightarrow> metric option" where
  "z_member_metric k j = (case member k j of None \<Rightarrow> None | Some v \<Rightarrow> z_metric v)"

definition judgerSchema :: "json \<Rightarrow> judgement option" where
  "judgerSchema j =
     (case z_member_metric ''quality'' j of
        None \<Rightarrow> None
      | Some q \<Rightarrow>
          (case z_member_metric ''correctness'' j of
             None \<Rightarrow> None
           | Some c \<Rightarrow>
               (case z_member_metric ''grammar'' j of
                  None \<Rightarrow> None
                | Some gr \<Rightarrow>
                    (case z_member_metric ''completeness'' j of
                       None \<Rightarrow> None
                     | Some cp \<Rightarrow>
                         Some \<lparr>quality = q, correctness = c, grammar = gr,
                               completeness = cp\<rparr>))))"

definition validation_error :: error where
  "validation_error = Thrown ''AI_NoObjectGeneratedError: No object generated: response did not match schema.''"

text \<open>
  \<^verbatim>\<open>generateObject({ schema: judgerSchema, model: judger, messages })\<close>: the call
  throws when the model call does, and when what comes back does not pass the schema.
\<close>

definition generateObject ::
  "('m, 'w) runtime \<Rightarrow> ModelMessage list \<Rightarrow> 'w \<Rightarrow> (error + judgement) \<times> 'w" where
  "generateObject rt msgs w =
     (case generateObject_raw rt (judger rt) msgs w of
        (out, w') \<Rightarrow>
          ((case out of
              Inl e \<Rightarrow> Inl e
            | Inr j \<Rightarrow> (case judgerSchema j of
                          None \<Rightarrow> Inl validation_error
                        | Some obj \<Rightarrow> Inr obj)),
           w'))"

definition call_generateObject ::
  "('m, 'w) runtime \<Rightarrow> ModelMessage list \<Rightarrow> ('m, 'w) state
     \<Rightarrow> (error + judgement) \<times> ('m, 'w) state" where
  "call_generateObject rt msgs s =
     (case generateObject rt msgs (world s) of
        (out, w) \<Rightarrow> (out, s\<lparr>world := w, calls := calls s @ [ObjectCall (judger rt) msgs]\<rparr>))"

text \<open>\<^verbatim>\<open>JSON.stringify({ conversation })\<close>.\<close>

definition hex_digit :: "nat \<Rightarrow> char" where
  "hex_digit n = (if n < 10 then char_of (48 + n) else char_of (87 + n))"

definition json_escape :: "char \<Rightarrow> string" where
  "json_escape c =
     (if c = CHR 0x22 then [CHR 0x5C, CHR 0x22]
      else if c = CHR 0x5C then [CHR 0x5C, CHR 0x5C]
      else if c = CHR 0x08 then [CHR 0x5C, CHR ''b'']
      else if c = CHR 0x0C then [CHR 0x5C, CHR ''f'']
      else if c = CHR 0x0A then [CHR 0x5C, CHR ''n'']
      else if c = CHR 0x0D then [CHR 0x5C, CHR ''r'']
      else if c = CHR 0x09 then [CHR 0x5C, CHR ''t'']
      else if (of_char c :: nat) < 32
        then [CHR 0x5C, CHR ''u'', CHR ''0'', CHR ''0'',
              hex_digit (of_char c div 16), hex_digit (of_char c mod 16)]
      else [c])"

definition json_quote :: "string \<Rightarrow> string" where
  "json_quote t = CHR 0x22 # concat (map json_escape t) @ [CHR 0x22]"

definition show_party :: "party \<Rightarrow> string" where
  "show_party p = (case p of buyer \<Rightarrow> ''buyer'' | store \<Rightarrow> ''store'')"

definition json_message :: "ConversationMesage \<Rightarrow> string" where
  \<open>json_message m =
     ''{"from":'' @ json_quote (show_party (sender m))
       @ '',"message":'' @ json_quote (message m) @ ''}''\<close>

fun join_commas :: "string list \<Rightarrow> string" where
  "join_commas [] = []"
| "join_commas [t] = t"
| "join_commas (t # ts) = t @ CHR '','' # join_commas ts"

definition JSON_stringify_conversation :: "ConversationMesage list \<Rightarrow> string" where
  \<open>JSON_stringify_conversation conv =
     ''{"conversation":['' @ join_commas (map json_message conv) @ '']}''\<close>

definition judgementPath :: "string \<Rightarrow> string" where
  "judgementPath ident = ''./judgements/'' @ ident @ ''.json''"

text \<open>
  \<^verbatim>\<open>judge(id, run, iteration = 0)\<close>. A throw inside the \<^verbatim>\<open>try\<close> block comes from
  \<^verbatim>\<open>generateObject\<close>, before anything is written. The result is \<open>Inl\<close> of the error
  the call ends by throwing, or \<open>Inr ()\<close>.
\<close>

function judge ::
  "('m, 'w) runtime \<Rightarrow> string \<Rightarrow> 'm ExportedConversation \<Rightarrow> nat \<Rightarrow> ('m, 'w) state
     \<Rightarrow> (error + unit) \<times> ('m, 'w) state" where
  "judge rt ident run iteration s =
     (let s1 = console_put (Log (''Judging '' @ ident)) s in
      case call_generateObject rt
             [\<lparr>role = system, content = judgingPrompt\<rparr>,
              \<lparr>role = user, content = JSON_stringify_conversation (conversation run)\<rparr>] s1 of
        (Inr object, s2) \<Rightarrow>
          (let s3 = console_put (Log (''Judged '' @ ident)) s2
           in (Inr (),
               Bun_write (judgementPath ident)
                 (JudgementFile
                    \<lparr>judged_id = ident,
                     judged_goal = goal run,
                     judged_modelName = modelName run,
                     judged_startTime = startTime run,
                     judged_endTime = endTime run,
                     judged_conversation = conversation run,
                     judged_quality = quality object,
                     judged_correctness = correctness object,
                     judged_grammar = grammar object,
                     judged_completeness = completeness object\<rparr>) s3))
      | (Inl e, s2) \<Rightarrow>
          if iteration > 10 then (Inl e, s2)
          else judge rt ident
                 \<lparr>goal = goal run, modelName = modelName run, model = model run,
                  conversation = conversation run, startTime = startTime run,
                  endTime = endTime run\<rparr>
                 (iteration + 1) s2)"
  by pat_completeness auto
termination
  by (relation "measure (\<lambda>(rt, ident, run, iteration, s). 11 - iteration)") auto

declare judge.simps [simp del]

text \<open>
  \<^verbatim>\<open>judgeAll\<close> goes through the names \<^verbatim>\<open>readdirSync("./results")\<close> gives. The
  body of its loop, for one name: a name that does not end in \<^verbatim>\<open>.json\<close> is passed
  over, and so is one that starts with a dot; otherwise the identifier is the name up to
  its first dot, the file is read, and \<^verbatim>\<open>judge\<close> is called on the two. The calls of
  \<^verbatim>\<open>judge\<close> run ten at a time at most and share nothing but the outside world; what
  follows is about one of them.
\<close>

definition endsWith :: "string \<Rightarrow> string \<Rightarrow> bool" where
  "endsWith t suffix \<longleftrightarrow>
     length suffix \<le> length t \<and> drop (length t - length suffix) t = suffix"

definition before_dot :: "string \<Rightarrow> string" where
  "before_dot t = takeWhile (\<lambda>c. c \<noteq> CHR ''.'') t"

datatype file_outcome =
  Skipped
| Unread error
| Judged "error + unit"

definition judgeFile ::
  "('m, 'w) runtime \<Rightarrow> string \<Rightarrow> ('m, 'w) state \<Rightarrow> file_outcome \<times> ('m, 'w) state" where
  "judgeFile rt file s =
     (if \<not> endsWith file ''.json'' then (Skipped, s)
      else
        (let ident = before_dot file in
         if ident = [] then (Skipped, s)
         else
           (case files s (''./results/'' @ file) of
              Some (ResultFile run) \<Rightarrow>
                (case judge rt ident run 0 s of (r, s') \<Rightarrow> (Judged r, s'))
            | _ \<Rightarrow> (Unread (Thrown ''ENOENT: no such file or directory''), s))))"

section \<open>Notions used to state the properties\<close>

text \<open>
  The conversation and the state after the first \<open>k\<close> passes of the loop, when each of
  them fell through to the next iteration.
\<close>

fun after_turns ::
  "('m, 'w) runtime \<Rightarrow> string \<Rightarrow> string \<Rightarrow> 'm \<Rightarrow> nat \<Rightarrow> ('m, 'w) state
     \<Rightarrow> (ConversationMesage list \<times> ('m, 'w) state) option" where
  "after_turns rt g goalModel m 0 s = Some ([], s)"
| "after_turns rt g goalModel m (Suc k) s =
     (case after_turns rt g goalModel m k s of
        None \<Rightarrow> None
      | Some (conv, s') \<Rightarrow>
          (case turn rt g goalModel m k conv s' of
             Continue conv' s'' \<Rightarrow> Some (conv', s'')
           | Break conv' s'' \<Rightarrow> None
           | Threw e conv' s'' \<Rightarrow> None))"

text \<open>
  The messages a pass appends when the call of the buyer returns \<open>r\<close> and the pass
  goes on to the call of the store, which ends as \<open>out\<close>.
\<close>

definition pass_messages :: "gen_result \<Rightarrow> error + gen_result \<Rightarrow> ConversationMesage list" where
  "pass_messages r out =
     \<lparr>sender = buyer, message = gen_text r\<rparr>
       # (case out of Inl e \<Rightarrow> [] | Inr r' \<Rightarrow> [\<lparr>sender = store, message = gen_text r'\<rparr>])"

text \<open>The state a pass ends in.\<close>

fun pass_state :: "('m, 'w) pass \<Rightarrow> ('m, 'w) state" where
  "pass_state (Continue c s) = s"
| "pass_state (Break c s) = s"
| "pass_state (Threw e c s) = s"

text \<open>The world after \<open>k\<close> judging attempts in a row that all failed.\<close>

fun after_failures ::
  "('m, 'w) runtime \<Rightarrow> ModelMessage list \<Rightarrow> nat \<Rightarrow> 'w \<Rightarrow> 'w option" where
  "after_failures rt msgs 0 w = Some w"
| "after_failures rt msgs (Suc k) w =
     (case generateObject rt msgs w of
        (Inl e, w') \<Rightarrow> after_failures rt msgs k w'
      | (Inr obj, w') \<Rightarrow> None)"

text \<open>The request of the judge for a run, and the object it writes for a result.\<close>

definition judgeMessages :: "'m ExportedConversation \<Rightarrow> ModelMessage list" where
  "judgeMessages run =
     [\<lparr>role = system, content = judgingPrompt\<rparr>,
      \<lparr>role = user, content = JSON_stringify_conversation (conversation run)\<rparr>]"

definition judged :: "string \<Rightarrow> 'm ExportedConversation \<Rightarrow> judgement \<Rightarrow> JudgedRun" where
  "judged ident run obj =
     \<lparr>judged_id = ident,
      judged_goal = goal run,
      judged_modelName = modelName run,
      judged_startTime = startTime run,
      judged_endTime = endTime run,
      judged_conversation = conversation run,
      judged_quality = quality obj,
      judged_correctness = correctness obj,
      judged_grammar = grammar obj,
      judged_completeness = completeness obj\<rparr>"

text \<open>Strict alternation of the senders, from a given first sender on.\<close>

definition other :: "party \<Rightarrow> party" where
  "other p = (case p of buyer \<Rightarrow> store | store \<Rightarrow> buyer)"

fun alternates :: "party \<Rightarrow> ConversationMesage list \<Rightarrow> bool" where
  "alternates p [] = True"
| "alternates p (x # xs) = (sender x = p \<and> alternates (other p) xs)"

section \<open>A scripted runtime\<close>

text \<open>
  A runtime for running the program on concrete inputs: the models answer from a script,
  whatever they are asked, the clock ticks once per reading, and every identifier is \<open>id0\<close>.
\<close>

record script =
  text_replies :: "(error + gen_result) list"
  object_replies :: "(error + json) list"
  ticks :: nat

definition id0 :: string where
  "id0 = ''V1StGXR8_Z5jdHi6B-myT''"

definition scripted :: "(string, script) runtime" where
  "scripted =
     \<lparr>nanoid = (\<lambda>w. (id0, w)),
      Date_now = (\<lambda>w. (ticks w, w\<lparr>ticks := Suc (ticks w)\<rparr>)),
      generateText =
        (\<lambda>m req w. case text_replies w of
                      [] \<Rightarrow> (Inl (Thrown ''Error: script exhausted''), w)
                    | r # rs \<Rightarrow> (r, w\<lparr>text_replies := rs\<rparr>)),
      generateObject_raw =
        (\<lambda>m msgs w. case object_replies w of
                       [] \<Rightarrow> (Inl (Thrown ''Error: script exhausted''), w)
                     | r # rs \<Rightarrow> (r, w\<lparr>object_replies := rs\<rparr>)),
      judger = ''claude-sonnet-4-5-20250929''\<rparr>"

definition start_state :: "script \<Rightarrow> (string, script) state" where
  "start_state w = \<lparr>world = w, files = Map.empty, console = [], calls = []\<rparr>"

definition says :: "string \<Rightarrow> error + gen_result" where
  "says t = Inr \<lparr>gen_text = t, toolCalls = [], staticToolResults = []\<rparr>"

definition finishes :: "string \<Rightarrow> string \<Rightarrow> error + gen_result" where
  "finishes t i =
     Inr \<lparr>gen_text = t,
          toolCalls = [\<lparr>called = ''finishedGoal'',
                       input = JObject [(''finished'', JBool True), (''information'', JString i)]\<rparr>],
          staticToolResults = [\<lparr>toolName = ''finishedGoal'', finished = True, information = i\<rparr>]\<rparr>"

text \<open>A call of the tool whose input the tool refuses: \<^verbatim>\<open>finished\<close> is not a boolean.\<close>

definition bad_input :: json where
  "bad_input = JObject [(''finished'', JString ''yes''), (''information'', JString ''Mon-Fri 9-20'')]"

definition miscalls :: "string \<Rightarrow> gen_result" where
  "miscalls t =
     \<lparr>gen_text = t,
      toolCalls = [\<lparr>called = ''finishedGoal'', input = bad_input\<rparr>],
      staticToolResults = []\<rparr>"

definition metric_json :: "string \<Rightarrow> double \<Rightarrow> json" where
  "metric_json r x = JObject [(''reasoning'', JString r), (''score'', JNumber (Finite x))]"

text \<open>The inputs the program is run on below.\<close>

definition goal0 :: string where
  "goal0 = ''Your goal is to find out the opening times''"

definition asks :: ConversationMesage where
  "asks = \<lparr>sender = buyer, message = ''Bon dia, quin horari teniu?''\<rparr>"

definition answers :: ConversationMesage where
  "answers = \<lparr>sender = store, message = ''Obrim de dilluns a divendres de 9 a 20 h.''\<rparr>"

definition finishing :: script where
  "finishing =
     \<lparr>text_replies = [says (message asks), says (message answers),
                      finishes ''Moltes gracies, adeu!'' ''Mon-Fri 9:00 AM - 8:00 PM''],
      object_replies = [], ticks = 0\<rparr>"


definition silent :: script where
  "silent =
     \<lparr>text_replies = [says (message asks), says (message answers),
                      says [], says [], finishes [] []],
      object_replies = [], ticks = 0\<rparr>"

definition miscalling :: script where
  "miscalling =
     \<lparr>text_replies = [Inr (miscalls ''Moltes gracies, adeu!''), says (message answers),
                      finishes [] ''Mon-Fri 9-20''],
      object_replies = [], ticks = 0\<rparr>"

definition run0 :: "string ExportedConversation" where
  "run0 = \<lparr>goal = goal0, modelName = ''openaiGpt4o'', model = ''gpt-4o'',
            conversation = [asks, answers], startTime = 0, endTime = 1\<rparr>"

definition verdict :: json where
  "verdict =
     JObject [(''quality'', metric_json ''Direct and short.'' (double 15 (- 4))),
              (''correctness'', metric_json ''Matches the opening times.'' (double 1 0)),
              (''grammar'', metric_json ''Proper Catalan.'' (double 7 (- 3))),
              (''completeness'', metric_json ''No explicit confirmation.'' (double 3 (- 2)))]"

definition verdict_object :: judgement where
  "verdict_object =
     \<lparr>quality = \<lparr>reasoning = ''Direct and short.'', score = double 15 (- 4)\<rparr>,
      correctness = \<lparr>reasoning = ''Matches the opening times.'', score = double 1 0\<rparr>,
      grammar = \<lparr>reasoning = ''Proper Catalan.'', score = double 7 (- 3)\<rparr>,
      completeness = \<lparr>reasoning = ''No explicit confirmation.'', score = double 3 (- 2)\<rparr>\<rparr>"

definition odd_verdict :: json where
  "odd_verdict =
     JObject [(''quality'', metric_json [] (double 11 0)),
              (''correctness'', metric_json [] (double (- 3) 0)),
              (''grammar'', metric_json [] (double 11 0)),
              (''completeness'', metric_json [] (double 11 0))]"

definition unavailable :: "error + json" where
  "unavailable = Inl (Thrown ''AI_APICallError: overloaded'')"

definition judging :: "(error + json) list \<Rightarrow> script" where
  "judging rs = \<lparr>text_replies = [], object_replies = rs, ticks = 0\<rparr>"

text \<open>A state in which the run \<open>run0\<close> has been written under \<open>id0\<close>.\<close>

definition simulated :: "script \<Rightarrow> (string, script) state" where
  "simulated w =
     \<lparr>world = w, files = [''./results/'' @ id0 @ ''.json'' \<mapsto> ResultFile run0],
      console = [], calls = []\<rparr>"

section \<open>Evaluation on concrete inputs\<close>

text \<open>The equations that run the simulator, the schema and the judge on a script.\<close>

lemmas sim_eval =
  runCase_def scripted_def start_state_def says_def finishes_def
  forLoop.simps turn_def call_generateText_def console_put_def Bun_write_def
  finishedGoal_execute_def MAX_CONVERSATION_LENGTH_def Let_def asks_def answers_def

lemmas schema_eval =
  judgerSchema_def z_member_metric_def z_metric_def z_string_def z_number_def member_def
  metric_json_def

lemmas judge_eval =
  generateObject_def scripted_def judging_def unavailable_def start_state_def

section \<open>Frame facts\<close>

text \<open>Logging touches the console only.\<close>

lemma console_put_frame [simp]:
  "world (console_put l s) = world s"
  "files (console_put l s) = files s"
  "calls (console_put l s) = calls s"
  by (simp_all add: console_put_def)

lemma fold_execute_frame [simp]:
  "world (fold (finishedGoal_execute gm) rs s) = world s"
  "files (fold (finishedGoal_execute gm) rs s) = files s"
  "calls (fold (finishedGoal_execute gm) rs s) = calls s"
  by (induction rs arbitrary: s) (simp_all add: finishedGoal_execute_def)

section \<open>The loop, one pass at a time\<close>

lemma forLoop_done:
  "\<not> i < MAX_CONVERSATION_LENGTH \<Longrightarrow> forLoop rt g gm m i conv s = (None, conv, s)"
  by (subst forLoop.simps) simp

lemma forLoop_Continue:
  "i < MAX_CONVERSATION_LENGTH \<Longrightarrow> turn rt g gm m i conv s = Continue c t
     \<Longrightarrow> forLoop rt g gm m i conv s = forLoop rt g gm m (Suc i) c t"
  by (subst forLoop.simps) simp

lemma forLoop_Break:
  "i < MAX_CONVERSATION_LENGTH \<Longrightarrow> turn rt g gm m i conv s = Break c t
     \<Longrightarrow> forLoop rt g gm m i conv s = (None, c, t)"
  by (subst forLoop.simps) simp

lemma forLoop_Threw:
  "i < MAX_CONVERSATION_LENGTH \<Longrightarrow> turn rt g gm m i conv s = Threw e c t
     \<Longrightarrow> forLoop rt g gm m i conv s = (Some e, c, t)"
  by (subst forLoop.simps) simp

text \<open>What one pass does to the conversation array, and that it writes no file.\<close>

lemma turn_Continue:
  assumes "turn rt g gm m i conv s = Continue conv' s'"
  shows "\<exists>b t. conv' = conv @ [\<lparr>sender = buyer, message = b\<rparr>, \<lparr>sender = store, message = t\<rparr>]"
  using assms
  by (auto simp: turn_def Let_def split: prod.splits sum.splits if_splits)

lemma turn_Break:
  assumes "turn rt g gm m i conv s = Break conv' s'"
  shows "conv' = conv"
  using assms
  by (auto simp: turn_def Let_def split: prod.splits sum.splits if_splits)

lemma turn_Threw:
  assumes "turn rt g gm m i conv s = Threw e conv' s'"
  shows "conv' = conv \<or> (\<exists>b. conv' = conv @ [\<lparr>sender = buyer, message = b\<rparr>])"
  using assms
  by (auto simp: turn_def Let_def split: prod.splits sum.splits if_splits)

lemma turn_files:
  "turn rt g gm m i conv s = Continue conv' s' \<Longrightarrow> files s' = files s"
  "turn rt g gm m i conv s = Break conv' s' \<Longrightarrow> files s' = files s"
  "turn rt g gm m i conv s = Threw e conv' s' \<Longrightarrow> files s' = files s"
  by (auto simp: turn_def Let_def call_generateText_def split: prod.splits sum.splits if_splits)

lemma forLoop_files:
  "forLoop rt g gm m i conv s = (thrown, conv', s') \<Longrightarrow> files s' = files s"
proof (induction rt g gm m i conv s rule: forLoop.induct)
  case (1 rt g gm m i conv s)
  show ?case
  proof (cases "i < MAX_CONVERSATION_LENGTH")
    case False
    with "1.prems" show ?thesis by (simp add: forLoop_done)
  next
    case True
    show ?thesis
    proof (cases "turn rt g gm m i conv s")
      case (Continue c t)
      with True "1.prems" have "forLoop rt g gm m (Suc i) c t = (thrown, conv', s')"
        by (simp add: forLoop_Continue)
      from "1.IH"[OF True Continue this] turn_files(1)[OF Continue] show ?thesis by simp
    next
      case (Break c t)
      with True "1.prems" turn_files(2)[OF Break] show ?thesis by (simp add: forLoop_Break)
    next
      case (Threw e c t)
      with True "1.prems" turn_files(3)[OF Threw] show ?thesis by (simp add: forLoop_Threw)
    qed
  qed
qed

text \<open>One pass, read off from what the model answers.\<close>

lemma turn_finished:
  assumes "generateText rt m (buyerRequest conv g) (world s) = (Inr r, w)"
    and "list_ex (\<lambda>result. toolName result = ''finishedGoal'') (staticToolResults r)"
  shows "\<exists>s'. turn rt g gm m i conv s = Break conv s' \<and> world s' = w
           \<and> calls s' = calls s @ [TextCall m (buyerRequest conv g)]"
  using assms by (simp add: turn_def Let_def call_generateText_def)

lemma turn_buyer_speaks:
  assumes "generateText rt m (buyerRequest conv g) (world s) = (Inr r, w)"
    and "\<not> list_ex (\<lambda>result. toolName result = ''finishedGoal'') (staticToolResults r)"
    and "generateText rt m
           (storeRequest (conv @ [\<lparr>sender = buyer, message = gen_text r\<rparr>])) w = (out, w')"
  shows "\<exists>s'. world s' = w' \<and>
           turn rt g gm m i conv s =
             (case out of
                Inl e \<Rightarrow> Threw e (conv @ [\<lparr>sender = buyer, message = gen_text r\<rparr>]) s'
              | Inr r' \<Rightarrow> Continue (conv @ [\<lparr>sender = buyer, message = gen_text r\<rparr>,
                                            \<lparr>sender = store, message = gen_text r'\<rparr>]) s')"
  using assms by (cases out) (simp_all add: turn_def Let_def call_generateText_def)

text \<open>Passes that fall through are iterations of the loop, and add two messages each.\<close>

lemma after_turns_forLoop:
  "after_turns rt g gm m k s0 = Some (conv, s) \<Longrightarrow> k \<le> MAX_CONVERSATION_LENGTH \<Longrightarrow>
     forLoop rt g gm m 0 [] s0 = forLoop rt g gm m k conv s \<and> length conv = 2 * k"
proof (induction k arbitrary: conv s)
  case 0
  then show ?case by simp
next
  case (Suc k)
  from Suc.prems(1) obtain c t where
    prev: "after_turns rt g gm m k s0 = Some (c, t)"
    and step: "turn rt g gm m k c t = Continue conv s"
    by (auto split: option.splits pass.splits)
  from Suc.prems(2) have k: "k < MAX_CONVERSATION_LENGTH" by simp
  from Suc.IH[OF prev] k have
    ih: "forLoop rt g gm m 0 [] s0 = forLoop rt g gm m k c t" "length c = 2 * k"
    by simp_all
  from turn_Continue[OF step] ih(2) have "length conv = 2 * Suc k" by auto
  with ih(1) forLoop_Continue[OF k step] show ?case by simp
qed

section \<open>Alternation\<close>

lemma other_other [simp]: "other (other p) = p"
  by (cases p) (simp_all add: other_def)

lemma alternates_append:
  "alternates p (xs @ ys) \<longleftrightarrow>
     alternates p xs \<and> alternates (if even (length xs) then p else other p) ys"
  by (induction xs arbitrary: p) auto

lemma alternates_nth:
  "alternates p xs \<Longrightarrow> k < length xs \<Longrightarrow> sender (xs ! k) = (if even k then p else other p)"
proof (induction xs arbitrary: p k)
  case Nil
  then show ?case by simp
next
  case (Cons x xs)
  show ?case
  proof (cases k)
    case 0
    with Cons.prems show ?thesis by simp
  next
    case (Suc j)
    with Cons.prems have "sender (xs ! j) = (if even j then other p else other (other p))"
      using Cons.IH[of "other p" j] by simp
    with Suc show ?thesis by simp
  qed
qed

text \<open>
  The loop only appends, what it appends alternates from the buyer on, and every pass
  still to come appends two messages at most.
\<close>

lemma forLoop_appends:
  "forLoop rt g gm m i conv s = (thrown, conv', s') \<Longrightarrow>
     \<exists>ys. conv' = conv @ ys \<and> alternates buyer ys
          \<and> length ys \<le> 2 * (MAX_CONVERSATION_LENGTH - i)"
proof (induction rt g gm m i conv s rule: forLoop.induct)
  case (1 rt g gm m i conv s)
  show ?case
  proof (cases "i < MAX_CONVERSATION_LENGTH")
    case False
    with "1.prems" show ?thesis by (simp add: forLoop_done)
  next
    case True
    show ?thesis
    proof (cases "turn rt g gm m i conv s")
      case (Continue c t)
      with True "1.prems" have run: "forLoop rt g gm m (Suc i) c t = (thrown, conv', s')"
        by (simp add: forLoop_Continue)
      from "1.IH"[OF True Continue run] obtain ys where
        ys: "conv' = c @ ys" "alternates buyer ys"
            "length ys \<le> 2 * (MAX_CONVERSATION_LENGTH - Suc i)"
        by blast
      from turn_Continue[OF Continue] obtain b u where
        c: "c = conv @ [\<lparr>sender = buyer, message = b\<rparr>, \<lparr>sender = store, message = u\<rparr>]"
        by blast
      let ?zs = "[\<lparr>sender = buyer, message = b\<rparr>, \<lparr>sender = store, message = u\<rparr>] @ ys"
      have "conv' = conv @ ?zs" using ys(1) c by simp
      moreover have "alternates buyer ?zs" using ys(2) by (simp add: other_def)
      moreover have "length ?zs \<le> 2 * (MAX_CONVERSATION_LENGTH - i)" using ys(3) True by simp
      ultimately show ?thesis by blast
    next
      case (Break c t)
      with True "1.prems" turn_Break[OF Break] show ?thesis by (simp add: forLoop_Break)
    next
      case (Threw e c t)
      with True "1.prems" have "conv' = c" by (simp add: forLoop_Threw)
      with turn_Threw[OF Threw] True show ?thesis by auto
    qed
  qed
qed

text \<open>A pass in which the buyer speaks leaves its messages in the conversation.\<close>

lemma forLoop_buyer_speaks:
  assumes "i < MAX_CONVERSATION_LENGTH"
    and "generateText rt m (buyerRequest conv g) (world s) = (Inr r, w)"
    and "\<not> list_ex (\<lambda>result. toolName result = ''finishedGoal'') (staticToolResults r)"
    and "generateText rt m
           (storeRequest (conv @ [\<lparr>sender = buyer, message = gen_text r\<rparr>])) w = (out, w')"
  shows "\<exists>rest. fst (snd (forLoop rt g gm m i conv s)) = conv @ pass_messages r out @ rest"
proof -
  from turn_buyer_speaks[OF assms(2,3,4), where gm = gm and i = i] obtain t where
    t: "turn rt g gm m i conv s =
          (case out of
             Inl e \<Rightarrow> Threw e (conv @ [\<lparr>sender = buyer, message = gen_text r\<rparr>]) t
           | Inr r' \<Rightarrow> Continue (conv @ [\<lparr>sender = buyer, message = gen_text r\<rparr>,
                                         \<lparr>sender = store, message = gen_text r'\<rparr>]) t)"
    by blast
  show ?thesis
  proof (cases out)
    case (Inl e)
    with t have "turn rt g gm m i conv s = Threw e (conv @ pass_messages r out) t"
      by (simp add: pass_messages_def)
    from forLoop_Threw[OF assms(1) this] show ?thesis by simp
  next
    case (Inr r')
    with t have c: "turn rt g gm m i conv s = Continue (conv @ pass_messages r out) t"
      by (simp add: pass_messages_def)
    obtain thrown c s2 where
      l: "forLoop rt g gm m (Suc i) (conv @ pass_messages r out) t = (thrown, c, s2)"
      by (metis prod_cases3)
    from forLoop_appends[OF l] obtain ys where "c = (conv @ pass_messages r out) @ ys"
      by blast
    with forLoop_Continue[OF assms(1) c] l show ?thesis by simp
  qed
qed

section \<open>runCase around the loop\<close>

text \<open>Whatever way the loop ends, the run record is written under the fresh identifier.\<close>

lemma runCase_unfold:
  assumes "nanoid rt (world s) = (ident, w1)"
    and "Date_now rt w1 = (start, w2)"
    and "forLoop rt g (mn @ '':'' @ g) m 0 []
           (console_put (Info (''=== Running case '' @ (mn @ '':'' @ g) @ '' ==='')) (s\<lparr>world := w2\<rparr>))
         = (thrown, conv, s2)"
  shows "\<exists>finish s'. runCase rt g mn m s = ((g, m, conv, start, finish), s')
           \<and> files s' = (files s)(resultPath ident \<mapsto>
                 ResultFile \<lparr>goal = g, modelName = mn, model = m, conversation = conv,
                             startTime = start, endTime = finish\<rparr>)"
proof -
  have f: "files s2 = files s"
    using forLoop_files[OF assms(3)] by simp
  show ?thesis
    using assms f
    by (cases thrown)
       (auto simp: runCase_def Let_def Bun_write_def split: prod.splits)
qed

lemma has_text_eq: "has_text = (\<lambda>m. message m \<noteq> [])"
  by (rule ext) (simp add: has_text_def)

section \<open>The requests the simulator sends\<close>

text \<open>The instructions of either side are never the empty text.\<close>

lemma split_lines_not_Nil: "split_lines cs \<noteq> []"
  by (induction cs) (auto split: list.splits)

lemma dedent_not_empty: "dedent (join_lines ([] # l # ls)) \<noteq> []"
proof -
  obtain p ps where p: "split_lines (join_lines (l # ls)) = p # ps"
    using split_lines_not_Nil by (cases "split_lines (join_lines (l # ls))") auto
  have "join_lines ([] # l # ls) = newline # join_lines (l # ls)" by simp
  then have "split_lines (join_lines ([] # l # ls)) = [] # p # ps"
    using p by simp
  then show ?thesis by (simp add: dedent_def)
qed

lemma storeGoal_not_empty: "storeGoal \<noteq> []"
  unfolding storeGoal_def by (rule dedent_not_empty)

lemma buyerInstructions_not_empty: "buyerInstructions g lang \<noteq> []"
  unfolding buyerInstructions_def by (rule dedent_not_empty)

lemma buyerRequest_no_empty_content:
  "list_all (\<lambda>mm. content mm \<noteq> []) (messages (buyerRequest conv g))"
  by (simp add: buyerRequest_def conversationForUser_def Let_def buyerInstructions_not_empty
        list_all_iff has_text_def)

lemma storeRequest_no_empty_content:
  "list_all (\<lambda>mm. content mm \<noteq> []) (messages (storeRequest conv))"
  by (simp add: storeRequest_def conversationForStore_def Let_def storeGoal_not_empty
        list_all_iff has_text_def)

text \<open>
  Every request of the loop is built by one of the two prompt builders, from the
  conversation as it then is; so no message of empty content is ever sent.
\<close>

lemma turn_calls:
  "\<exists>cs. calls (pass_state (turn rt g gm m i conv s)) = calls s @ cs
        \<and> list_all (\<lambda>c. (\<exists>cv. c = TextCall m (buyerRequest cv g))
                       \<or> (\<exists>cv. c = TextCall m (storeRequest cv))) cs"
  by (auto simp: turn_def Let_def call_generateText_def split: prod.splits sum.splits)

lemma forLoop_calls:
  "forLoop rt g gm m i conv s = (thrown, conv', s') \<Longrightarrow>
     \<exists>cs. calls s' = calls s @ cs
        \<and> list_all (\<lambda>c. (\<exists>cv. c = TextCall m (buyerRequest cv g))
                       \<or> (\<exists>cv. c = TextCall m (storeRequest cv))) cs"
proof (induction rt g gm m i conv s rule: forLoop.induct)
  case (1 rt g gm m i conv s)
  let ?built = "\<lambda>c. (\<exists>cv. c = TextCall m (buyerRequest cv g))
                     \<or> (\<exists>cv. c = TextCall m (storeRequest cv))"
  show ?case
  proof (cases "i < MAX_CONVERSATION_LENGTH")
    case False
    with "1.prems" show ?thesis by (simp add: forLoop_done)
  next
    case True
    from turn_calls[of rt g gm m i conv s] obtain cs where
      cs: "calls (pass_state (turn rt g gm m i conv s)) = calls s @ cs" "list_all ?built cs"
      by blast
    show ?thesis
    proof (cases "turn rt g gm m i conv s")
      case (Continue c t)
      with True "1.prems" have run: "forLoop rt g gm m (Suc i) c t = (thrown, conv', s')"
        by (simp add: forLoop_Continue)
      from "1.IH"[OF True Continue run] obtain ds where
        ds: "calls s' = calls t @ ds" "list_all ?built ds"
        by blast
      from cs Continue ds have "calls s' = calls s @ (cs @ ds) \<and> list_all ?built (cs @ ds)"
        by simp
      then show ?thesis by blast
    next
      case (Break c t)
      with True "1.prems" cs show ?thesis by (auto simp: forLoop_Break)
    next
      case (Threw e c t)
      with True "1.prems" cs show ?thesis by (auto simp: forLoop_Threw)
    qed
  qed
qed

lemma forLoop_sends_no_empty_content:
  assumes "forLoop rt g gm m i conv s = (thrown, conv', s')"
  shows "\<exists>cs. calls s' = calls s @ cs
           \<and> list_all (\<lambda>c. case c of
                              TextCall m' req \<Rightarrow> list_all (\<lambda>mm. content mm \<noteq> []) (messages req)
                            | ObjectCall m' msgs \<Rightarrow> False) cs"
proof -
  from forLoop_calls[OF assms] obtain cs where
    cs: "calls s' = calls s @ cs"
        "list_all (\<lambda>c. (\<exists>cv. c = TextCall m (buyerRequest cv g))
                      \<or> (\<exists>cv. c = TextCall m (storeRequest cv))) cs"
    by blast
  from cs(2) have
    "list_all (\<lambda>c. case c of
                     TextCall m' req \<Rightarrow> list_all (\<lambda>mm. content mm \<noteq> []) (messages req)
                   | ObjectCall m' msgs \<Rightarrow> False) cs"
    unfolding list_all_iff
    using buyerRequest_no_empty_content storeRequest_no_empty_content
    by (auto simp: list_all_iff)
  with cs(1) show ?thesis by blast
qed

section \<open>The judge, one attempt at a time\<close>

text \<open>The record handed to the recursive call is the record that came in.\<close>

lemma rebuilt_run:
  "\<lparr>goal = goal run, modelName = modelName run, model = model run,
    conversation = conversation run, startTime = startTime run, endTime = endTime run\<rparr>
   = (run :: 'm ExportedConversation)"
  by simp

lemma judge_unfold:
  "judge rt ident run it s =
     (case call_generateObject rt (judgeMessages run) (console_put (Log (''Judging '' @ ident)) s) of
        (Inr obj, s2) \<Rightarrow>
          (Inr (), Bun_write (judgementPath ident) (JudgementFile (judged ident run obj))
                     (console_put (Log (''Judged '' @ ident)) s2))
      | (Inl e, s2) \<Rightarrow> if it > 10 then (Inl e, s2) else judge rt ident run (Suc it) s2)"
  by (subst judge.simps)
     (simp add: Let_def judgeMessages_def judged_def rebuilt_run split: prod.splits sum.splits)

lemma judge_success:
  assumes "generateObject rt (judgeMessages run) (world s) = (Inr obj, w)"
  shows "fst (judge rt ident run it s) = Inr ()"
    and "world (snd (judge rt ident run it s)) = w"
    and "files (snd (judge rt ident run it s))
           = (files s)(judgementPath ident \<mapsto> JudgementFile (judged ident run obj))"
    and "calls (snd (judge rt ident run it s))
           = calls s @ [ObjectCall (judger rt) (judgeMessages run)]"
  using assms
  by (subst judge_unfold, simp add: call_generateObject_def Bun_write_def split: prod.splits)+

lemma judge_retry:
  assumes "generateObject rt (judgeMessages run) (world s) = (Inl e, w)" and "it \<le> 10"
  shows "\<exists>s2. judge rt ident run it s = judge rt ident run (Suc it) s2 \<and> world s2 = w
           \<and> files s2 = files s
           \<and> calls s2 = calls s @ [ObjectCall (judger rt) (judgeMessages run)]"
proof -
  let ?s2 = "(console_put (Log (''Judging '' @ ident)) s)
               \<lparr>world := w, calls := calls s @ [ObjectCall (judger rt) (judgeMessages run)]\<rparr>"
  have "judge rt ident run it s = judge rt ident run (Suc it) ?s2"
    using assms
    by (subst judge_unfold) (simp add: call_generateObject_def split: prod.splits)
  then show ?thesis by (intro exI[of _ ?s2]) simp
qed

lemma judge_give_up:
  assumes "generateObject rt (judgeMessages run) (world s) = (Inl e, w)" and "it > 10"
  shows "fst (judge rt ident run it s) = Inl e"
    and "world (snd (judge rt ident run it s)) = w"
    and "files (snd (judge rt ident run it s)) = files s"
    and "calls (snd (judge rt ident run it s))
           = calls s @ [ObjectCall (judger rt) (judgeMessages run)]"
  using assms
  by (subst judge_unfold, simp add: call_generateObject_def split: prod.splits)+

text \<open>A success after \<open>k\<close> failures, as long as the attempts last.\<close>

lemma judge_after_failures:
  "after_failures rt (judgeMessages run) k (world s) = Some wk \<Longrightarrow> it + k \<le> 11 \<Longrightarrow>
   generateObject rt (judgeMessages run) wk = (Inr obj, w) \<Longrightarrow>
     fst (judge rt ident run it s) = Inr ()
     \<and> world (snd (judge rt ident run it s)) = w
     \<and> files (snd (judge rt ident run it s))
           = (files s)(judgementPath ident \<mapsto> JudgementFile (judged ident run obj))
     \<and> calls (snd (judge rt ident run it s))
           = calls s @ replicate (Suc k) (ObjectCall (judger rt) (judgeMessages run))"
proof (induction k arbitrary: it s)
  case 0
  then have "generateObject rt (judgeMessages run) (world s) = (Inr obj, w)" by simp
  from judge_success[OF this, of ident it] show ?case by simp
next
  case (Suc k)
  from Suc.prems(1) obtain e w1 where
    first: "generateObject rt (judgeMessages run) (world s) = (Inl e, w1)"
    and rest: "after_failures rt (judgeMessages run) k w1 = Some wk"
    by (auto split: prod.splits sum.splits)
  from Suc.prems(2) have "it \<le> 10" by simp
  from judge_retry[OF first this, of ident] obtain s2 where
    step: "judge rt ident run it s = judge rt ident run (Suc it) s2" and w: "world s2 = w1"
    and f: "files s2 = files s"
    and c: "calls s2 = calls s @ [ObjectCall (judger rt) (judgeMessages run)]"
    by blast
  from rest w have r: "after_failures rt (judgeMessages run) k (world s2) = Some wk" by simp
  from Suc.prems(2) have b: "Suc it + k \<le> 11" by simp
  from Suc.IH[OF r b Suc.prems(3)] show ?case
    unfolding step f c by (simp add: replicate_app_Cons_same)
qed

text \<open>Twelve failures in a row, counted from \<open>iteration\<close>: the last error is thrown on.\<close>

lemma judge_all_fail:
  "after_failures rt (judgeMessages run) (12 - it) (world s) = Some w \<Longrightarrow> it \<le> 11 \<Longrightarrow>
     (\<exists>e. fst (judge rt ident run it s) = Inl e)
     \<and> world (snd (judge rt ident run it s)) = w
     \<and> files (snd (judge rt ident run it s)) = files s
     \<and> calls (snd (judge rt ident run it s))
           = calls s @ replicate (12 - it) (ObjectCall (judger rt) (judgeMessages run))"
proof (induction "11 - it" arbitrary: it s)
  case 0
  then have it: "it = 11" by simp
  with "0.prems"(1) obtain e where
    "generateObject rt (judgeMessages run) (world s) = (Inl e, w)"
    by (auto split: prod.splits sum.splits)
  from judge_give_up[OF this, of it ident] it show ?case by simp
next
  case (Suc k)
  then have it: "it \<le> 10" by simp
  then have n: "12 - it = Suc (12 - Suc it)" by simp
  from Suc.prems(1) obtain e w1 where
    first: "generateObject rt (judgeMessages run) (world s) = (Inl e, w1)"
    and rest: "after_failures rt (judgeMessages run) (12 - Suc it) w1 = Some w"
    unfolding n by (auto split: prod.splits sum.splits)
  from judge_retry[OF first it, of ident] obtain s2 where
    step: "judge rt ident run it s = judge rt ident run (Suc it) s2" and w: "world s2 = w1"
    and f: "files s2 = files s"
    and c: "calls s2 = calls s @ [ObjectCall (judger rt) (judgeMessages run)]"
    by blast
  from Suc.hyps(2) have k: "k = 11 - Suc it" by simp
  from rest w have r: "after_failures rt (judgeMessages run) (12 - Suc it) (world s2) = Some w"
    by simp
  from it have b: "Suc it \<le> 11" by simp
  from Suc.hyps(1)[OF k r b] show ?case
    unfolding step f c n by (simp add: replicate_app_Cons_same)
qed

text \<open>Either the first \<open>n\<close> attempts all fail, or one of them is the first to succeed.\<close>

lemma failures_or_success:
  "after_failures rt msgs n w \<noteq> None \<or>
     (\<exists>k<n. \<exists>wk obj w'. after_failures rt msgs k w = Some wk
                        \<and> generateObject rt msgs wk = (Inr obj, w'))"
proof (induction n arbitrary: w)
  case 0
  then show ?case by simp
next
  case (Suc n)
  obtain out w1 where g: "generateObject rt msgs w = (out, w1)" by force
  show ?case
  proof (cases out)
    case (Inr obj)
    with g have "after_failures rt msgs 0 w = Some w \<and> generateObject rt msgs w = (Inr obj, w1)"
      by simp
    then show ?thesis by blast
  next
    case (Inl e)
    from Suc.IH[of w1] show ?thesis
    proof
      assume "after_failures rt msgs n w1 \<noteq> None"
      with g Inl show ?thesis by simp
    next
      assume "\<exists>k<n. \<exists>wk obj w'. after_failures rt msgs k w1 = Some wk
                        \<and> generateObject rt msgs wk = (Inr obj, w')"
      then obtain k wk obj w' where
        "k < n" "after_failures rt msgs k w1 = Some wk" "generateObject rt msgs wk = (Inr obj, w')"
        by blast
      with g Inl have "Suc k < Suc n \<and> after_failures rt msgs (Suc k) w = Some wk
                        \<and> generateObject rt msgs wk = (Inr obj, w')"
        by simp
      then show ?thesis by blast
    qed
  qed
qed

lemma success_ends_failures:
  "after_failures rt msgs k w = Some wk \<Longrightarrow> generateObject rt msgs wk = (Inr obj, w') \<Longrightarrow>
     k < n \<Longrightarrow> after_failures rt msgs n w = None"
proof (induction k arbitrary: w n)
  case 0
  then obtain j where "n = Suc j" by (cases n) auto
  with 0 show ?case by simp
next
  case (Suc k)
  from Suc.prems(3) obtain j where n: "n = Suc j" "k < j" by (cases n) auto
  from Suc.prems(1) obtain e w1 where
    first: "generateObject rt msgs w = (Inl e, w1)"
    and rest: "after_failures rt msgs k w1 = Some wk"
    by (auto split: prod.splits sum.splits)
  from Suc.IH[OF rest Suc.prems(2) n(2)] first n(1) show ?case by simp
qed

section \<open>The schema\<close>

lemma z_metric_Some:
  "z_metric v = Some mt \<Longrightarrow>
     member ''reasoning'' v = Some (JString (reasoning mt))
     \<and> member ''score'' v = Some (JNumber (Finite (score mt)))"
  by (cases mt)
     (auto simp: z_metric_def z_string_def z_number_def
           split: option.splits json.splits number.splits)

lemma z_member_metric_Some:
  "z_member_metric k j = Some mt \<Longrightarrow>
     \<exists>v. member k j = Some v
        \<and> member ''reasoning'' v = Some (JString (reasoning mt))
        \<and> member ''score'' v = Some (JNumber (Finite (score mt)))"
  by (auto simp: z_member_metric_def dest: z_metric_Some split: option.splits)

lemma judgerSchema_Some:
  "judgerSchema j = Some obj \<Longrightarrow>
     z_member_metric ''quality'' j = Some (quality obj)
     \<and> z_member_metric ''correctness'' j = Some (correctness obj)
     \<and> z_member_metric ''grammar'' j = Some (grammar obj)
     \<and> z_member_metric ''completeness'' j = Some (completeness obj)"
  by (cases obj) (auto simp: judgerSchema_def split: option.splits)

lemma odd_verdict_accepted:
  "judgerSchema odd_verdict
     = Some \<lparr>quality = \<lparr>reasoning = [], score = double 11 0\<rparr>,
             correctness = \<lparr>reasoning = [], score = double (- 3) 0\<rparr>,
             grammar = \<lparr>reasoning = [], score = double 11 0\<rparr>,
             completeness = \<lparr>reasoning = [], score = double 11 0\<rparr>\<rparr>"
  by (simp add: schema_eval odd_verdict_def)

lemma double_of_small_int:
  "\<bar>m\<bar> < 2 ^ 53 \<Longrightarrow> real_of_double (double m 0) = of_int m"
  by (simp add: double.rep_eq scaled_def)

text \<open>The body of the loop of \<^verbatim>\<open>judgeAll\<close>, on the file of a run.\<close>

lemma before_dot_json:
  "CHR ''.'' \<notin> set ident \<Longrightarrow> before_dot (ident @ ''.json'') = ident"
  by (induction ident) (auto simp: before_dot_def)

lemma endsWith_json: "endsWith (ident @ ''.json'') ''.json''"
  by (simp add: endsWith_def)

lemma judgeFile_of_run:
  assumes "files s (''./results/'' @ ident @ ''.json'') = Some (ResultFile run)"
    and "ident \<noteq> []" and "CHR ''.'' \<notin> set ident"
  shows "judgeFile rt (ident @ ''.json'') s
           = (Judged (fst (judge rt ident run 0 s)), snd (judge rt ident run 0 s))"
  using assms
  by (simp add: judgeFile_def before_dot_json endsWith_json Let_def split: prod.splits)

lemma verdict_accepted: "judgerSchema verdict = Some verdict_object"
  by (simp add: schema_eval verdict_def verdict_object_def)

section \<open>Properties of the simulator\<close>

subsection \<open>C1: a run whose model call throws\<close>




subsection \<open>C3: length and alternation of the conversation\<close>

text \<open>
  Claim C3. The conversation a run returns has at most \<open>2 * MAX_CONVERSATION_LENGTH\<close>,
  that is 20, messages; the message at an even position (counting from 0) is the buyer's
  and the one at an odd position the store's, so a conversation that is not empty starts
  with the buyer. This holds however the loop ends, and the run record that is written
  holds this very conversation.
\<close>

theorem conversation_bounded_and_alternating:
  assumes "runCase rt g mn m s = ((g', m', conv, t0, t1), s')"
  shows "length conv \<le> 2 * MAX_CONVERSATION_LENGTH \<and> 2 * MAX_CONVERSATION_LENGTH = 20
           \<and> (\<forall>k<length conv. sender (conv ! k) = (if even k then buyer else store))
           \<and> files s' (resultPath (fst (nanoid rt (world s))))
               = Some (ResultFile \<lparr>goal = g, modelName = mn, model = m, conversation = conv,
                                    startTime = t0, endTime = t1\<rparr>)"
proof -
  obtain ident w1 where a: "nanoid rt (world s) = (ident, w1)" by force
  obtain start w2 where b: "Date_now rt w1 = (start, w2)" by force
  obtain thrown c s2 where
    l: "forLoop rt g (mn @ '':'' @ g) m 0 []
          (console_put (Info (''=== Running case '' @ (mn @ '':'' @ g) @ '' ==='')) (s\<lparr>world := w2\<rparr>))
        = (thrown, c, s2)"
    by (metis prod_cases3)
  from runCase_unfold[OF a b l] assms have
    c: "c = conv" and
    f: "files s' = (files s)(resultPath ident \<mapsto>
          ResultFile \<lparr>goal = g, modelName = mn, model = m, conversation = conv,
                      startTime = t0, endTime = t1\<rparr>)"
    by auto
  from c forLoop_appends[OF l] have
    alt: "alternates buyer conv" and len: "length conv \<le> 2 * MAX_CONVERSATION_LENGTH"
    by auto
  from alternates_nth[OF alt] have
    "\<forall>k<length conv. sender (conv ! k) = (if even k then buyer else store)"
    by (simp add: other_def)
  with len f a show ?thesis by (simp add: MAX_CONVERSATION_LENGTH_def)
qed

text \<open>A run of one full pass that the buyer then ends: two messages, buyer then store.\<close>

theorem conversation_bounded_and_alternating_witness:
  "fst (runCase scripted goal0 ''openaiGpt4o'' ''gpt-4o'' (start_state finishing))
     = (goal0, ''gpt-4o'', [asks, answers], 0, 1)
   \<and> length [asks, answers] \<le> 2 * MAX_CONVERSATION_LENGTH
   \<and> sender ([asks, answers] ! 0) = buyer
   \<and> sender ([asks, answers] ! 1) = store
   \<and> files (snd (runCase scripted goal0 ''openaiGpt4o'' ''gpt-4o'' (start_state finishing)))
         (resultPath id0)
       = Some (ResultFile \<lparr>goal = goal0, modelName = ''openaiGpt4o'', model = ''gpt-4o'',
                            conversation = [asks, answers], startTime = 0, endTime = 1\<rparr>)"
proof -
  let ?r = "runCase scripted goal0 ''openaiGpt4o'' ''gpt-4o'' (start_state finishing)"
  have h: "fst ?r = (goal0, ''gpt-4o'', [asks, answers], 0, 1)"
    by (simp add: sim_eval finishing_def)
  then have r: "?r = ((goal0, ''gpt-4o'', [asks, answers], 0, 1), snd ?r)"
    by (simp add: prod_eq_iff)
  have n: "fst (nanoid scripted (world (start_state finishing))) = id0"
    by (simp add: scripted_def)
  from conversation_bounded_and_alternating[OF r] have
    b: "length [asks, answers] \<le> 2 * MAX_CONVERSATION_LENGTH"
    and a: "\<forall>k<length [asks, answers]. sender ([asks, answers] ! k) = (if even k then buyer else store)"
    and f: "files (snd ?r) (resultPath (fst (nanoid scripted (world (start_state finishing)))))
              = Some (ResultFile \<lparr>goal = goal0, modelName = ''openaiGpt4o'', model = ''gpt-4o'',
                                   conversation = [asks, answers], startTime = 0, endTime = 1\<rparr>)"
    by simp_all
  from a[rule_format, of 0] a[rule_format, of 1] b h f n show ?thesis by simp
qed

subsection \<open>C4: the completion tool ends the loop\<close>

text \<open>
  Claim C4, as amended. Let \<open>k\<close> passes have fallen through, and let the buyer's call of
  the next pass come back with a result of the tool \<^verbatim>\<open>finishedGoal\<close>, which is to say
  that the tool was run. Then the loop ends there without a throw and with the
  conversation as it was when that pass began, which has \<open>2 * k\<close> messages: the text of
  that call is not appended and the store is not asked. The call of the buyer is the last
  request sent, and the world is left as that call left it.
\<close>

theorem finishedGoal_ends_the_loop:
  assumes "k < MAX_CONVERSATION_LENGTH"
    and "after_turns rt g gm m k s0 = Some (conv, s)"
    and "generateText rt m (buyerRequest conv g) (world s) = (Inr r, w)"
    and "list_ex (\<lambda>result. toolName result = ''finishedGoal'') (staticToolResults r)"
  shows "\<exists>s'. forLoop rt g gm m 0 [] s0 = (None, conv, s') \<and> length conv = 2 * k
           \<and> world s' = w
           \<and> calls s' = calls s @ [TextCall m (buyerRequest conv g)]"
proof -
  from turn_finished[OF assms(3,4), where gm = gm and i = k] obtain s' where
    br: "turn rt g gm m k conv s = Break conv s'" and w: "world s' = w"
    and c: "calls s' = calls s @ [TextCall m (buyerRequest conv g)]"
    by blast
  from after_turns_forLoop[OF assms(2)] assms(1) have
    "forLoop rt g gm m 0 [] s0 = forLoop rt g gm m k conv s" "length conv = 2 * k"
    by simp_all
  with forLoop_Break[OF assms(1) br] w c show ?thesis by simp
qed

text \<open>
  The buyer asks, the store answers, and the buyer's second call uses the tool: the
  conversation has the two messages of the first pass, and the script is used up.
\<close>

theorem finishedGoal_ends_the_loop_witness:
  "(1::nat) < MAX_CONVERSATION_LENGTH
   \<and> map_option fst (after_turns scripted goal0 ''openaiGpt4o:goal'' ''gpt-4o'' 1 (start_state finishing))
       = Some [asks, answers]
   \<and> fst (forLoop scripted goal0 ''openaiGpt4o:goal'' ''gpt-4o'' 0 [] (start_state finishing)) = None
   \<and> fst (snd (forLoop scripted goal0 ''openaiGpt4o:goal'' ''gpt-4o'' 0 [] (start_state finishing)))
       = [asks, answers]
   \<and> text_replies (world (snd (snd (forLoop scripted goal0 ''openaiGpt4o:goal'' ''gpt-4o'' 0 []
                                        (start_state finishing))))) = []"
proof -
  let ?at = "after_turns scripted goal0 ''openaiGpt4o:goal'' ''gpt-4o'' 1 (start_state finishing)"
  let ?r = "\<lparr>gen_text = ''Moltes gracies, adeu!'',
             toolCalls = [\<lparr>called = ''finishedGoal'',
                          input = JObject [(''finished'', JBool True),
                                           (''information'', JString ''Mon-Fri 9:00 AM - 8:00 PM'')]\<rparr>],
             staticToolResults = [\<lparr>toolName = ''finishedGoal'', finished = True,
                                   information = ''Mon-Fri 9:00 AM - 8:00 PM''\<rparr>]\<rparr>"
  have k: "(1::nat) < MAX_CONVERSATION_LENGTH"
    by (simp add: MAX_CONVERSATION_LENGTH_def)
  have c: "map_option fst ?at = Some [asks, answers]"
    by (simp add: sim_eval finishing_def)
  have w: "map_option (\<lambda>p. text_replies (world (snd p))) ?at
             = Some [finishes ''Moltes gracies, adeu!'' ''Mon-Fri 9:00 AM - 8:00 PM'']"
    by (simp add: sim_eval finishing_def)
  from c w obtain s1 where
    a: "?at = Some ([asks, answers], s1)"
    and w1: "text_replies (world s1) = [finishes ''Moltes gracies, adeu!'' ''Mon-Fri 9:00 AM - 8:00 PM'']"
    by (cases ?at) auto
  have g: "generateText scripted ''gpt-4o'' (buyerRequest [asks, answers] goal0) (world s1)
             = (Inr ?r, (world s1)\<lparr>text_replies := []\<rparr>)"
    by (simp add: scripted_def w1 finishes_def)
  have l: "list_ex (\<lambda>result. toolName result = ''finishedGoal'') (staticToolResults ?r)"
    by simp
  from finishedGoal_ends_the_loop[OF k a g l] c k show ?thesis by auto
qed

text \<open>
  Claim C4 as first stated speaks of the call invoking the tool. The loop looks at the
  results of tools, not at the calls: when the buyer's call invokes \<^verbatim>\<open>finishedGoal\<close>
  with an input the tool refuses, there is no result, the text of the call and the reply
  of the store are appended, and the loop goes on to a third request.
\<close>

theorem refused_invocation_counterexample:
  "map called (toolCalls (miscalls ''Moltes gracies, adeu!'')) = [''finishedGoal'']
   \<and> map input (toolCalls (miscalls ''Moltes gracies, adeu!'')) = [bad_input]
   \<and> staticToolResults (miscalls ''Moltes gracies, adeu!'') = []
   \<and> finishedGoal_inputSchema bad_input = None
   \<and> fst (forLoop scripted goal0 ''openaiGpt4o:goal'' ''gpt-4o'' 0 [] (start_state miscalling))
       = None
   \<and> fst (snd (forLoop scripted goal0 ''openaiGpt4o:goal'' ''gpt-4o'' 0 []
                  (start_state miscalling)))
       = [\<lparr>sender = buyer, message = ''Moltes gracies, adeu!''\<rparr>, answers]
   \<and> length (calls (snd (snd (forLoop scripted goal0 ''openaiGpt4o:goal'' ''gpt-4o'' 0 []
                                 (start_state miscalling))))) = 3"
  by (simp add: sim_eval miscalling_def miscalls_def bad_input_def
        finishedGoal_inputSchema_def member_def z_boolean_def z_string_def)

subsection \<open>C6: messages without text are not replayed\<close>

text \<open>
  Claim C6. In the prompt of either side, the texts replayed after the leading messages
  (two for the buyer, one for the store) are the non-empty texts of the conversation, in
  order. A message of empty text, wherever it stands in the conversation and whoever
  sent it, leaves both prompts as they are without it.
\<close>

theorem empty_messages_not_replayed:
  "map content (drop 2 (conversationForUser conv g lang)) = filter (\<lambda>t. t \<noteq> []) (map message conv)
   \<and> map content (drop 1 (conversationForStore conv sg)) = filter (\<lambda>t. t \<noteq> []) (map message conv)
   \<and> conversationForUser (xs @ \<lparr>sender = p, message = []\<rparr> # ys) g lang
       = conversationForUser (xs @ ys) g lang
   \<and> conversationForStore (xs @ \<lparr>sender = p, message = []\<rparr> # ys) sg
       = conversationForStore (xs @ ys) sg"
  by (simp add: conversationForUser_def conversationForStore_def has_text_eq Let_def
        filter_map comp_def)

subsection \<open>C7: the side being played is the assistant\<close>

text \<open>
  Claim C7. In the buyer's prompt every replayed message of the buyer has the role
  assistant and every replayed message of the store the role user; in the store's prompt
  it is the other way round.
\<close>

theorem persona_played_is_assistant:
  "map role (drop 2 (conversationForUser conv g lang))
     = map (\<lambda>m. case sender m of buyer \<Rightarrow> assistant | store \<Rightarrow> user) (filter has_text conv)
   \<and> map role (drop 1 (conversationForStore conv sg))
     = map (\<lambda>m. case sender m of store \<Rightarrow> assistant | buyer \<Rightarrow> user) (filter has_text conv)"
  by (auto simp: conversationForUser_def conversationForStore_def Let_def split: party.splits)

subsection \<open>C10: messages without text are kept in the run record\<close>

text \<open>
  Claim C10. Let \<open>k\<close> passes of a run have fallen through, leaving the conversation
  \<open>conv\<close>. Let the buyer's call of the next pass return without a result of the tool,
  let the call of the store then end in any way, and let a text that came back from
  either be empty. Then the run record that is written holds \<open>conv\<close>, followed by the
  messages of this pass just as they came, followed by what later passes add; so it
  holds a message of empty text. Nothing filters the conversation on its way to the file.
\<close>

theorem empty_text_is_persisted:
  assumes "nanoid rt (world s) = (ident, w1)"
    and "Date_now rt w1 = (start, w2)"
    and "k < MAX_CONVERSATION_LENGTH"
    and "after_turns rt g (mn @ '':'' @ g) m k
           (console_put (Info (''=== Running case '' @ (mn @ '':'' @ g) @ '' ==='')) (s\<lparr>world := w2\<rparr>))
         = Some (conv, sk)"
    and "generateText rt m (buyerRequest conv g) (world sk) = (Inr r, w3)"
    and "\<not> list_ex (\<lambda>result. toolName result = ''finishedGoal'') (staticToolResults r)"
    and "generateText rt m
           (storeRequest (conv @ [\<lparr>sender = buyer, message = gen_text r\<rparr>])) w3 = (out, w4)"
    and "list_ex (\<lambda>x. message x = []) (pass_messages r out)"
  shows "\<exists>run rest.
           files (snd (runCase rt g mn m s)) (''./results/'' @ ident @ ''.json'')
             = Some (ResultFile run)
           \<and> conversation run = conv @ pass_messages r out @ rest
           \<and> length conv = 2 * k
           \<and> list_ex (\<lambda>x. message x = []) (conversation run)"
proof -
  let ?gm = "mn @ '':'' @ g"
  let ?s1 = "console_put (Info (''=== Running case '' @ ?gm @ '' ==='')) (s\<lparr>world := w2\<rparr>)"
  let ?l = "forLoop rt g ?gm m 0 [] ?s1"
  from assms(3) have k: "k \<le> MAX_CONVERSATION_LENGTH" by simp
  from after_turns_forLoop[OF assms(4) k] have
    same: "?l = forLoop rt g ?gm m k conv sk" and len: "length conv = 2 * k"
    by simp_all
  from forLoop_buyer_speaks[OF assms(3) assms(5) assms(6) assms(7), where gm = ?gm] same
  obtain rest where c: "fst (snd ?l) = conv @ pass_messages r out @ rest"
    by auto
  have l: "?l = (fst ?l, fst (snd ?l), snd (snd ?l))" by simp
  from runCase_unfold[OF assms(1) assms(2) l] obtain finish s' where
    r: "runCase rt g mn m s = ((g, m, fst (snd ?l), start, finish), s')"
    and f: "files s' = (files s)(resultPath ident \<mapsto>
              ResultFile \<lparr>goal = g, modelName = mn, model = m, conversation = fst (snd ?l),
                          startTime = start, endTime = finish\<rparr>)"
    by blast
  let ?run = "\<lparr>goal = g, modelName = mn, model = m, conversation = fst (snd ?l),
               startTime = start, endTime = finish\<rparr>"
  have "files (snd (runCase rt g mn m s)) (''./results/'' @ ident @ ''.json'') = Some (ResultFile ?run)"
    using r f by (simp add: resultPath_def)
  moreover have "conversation ?run = conv @ pass_messages r out @ rest"
    using c by simp
  moreover have "list_ex (\<lambda>x. message x = []) (conversation ?run)"
    using c assms(8) by (auto simp: list_ex_iff)
  ultimately show ?thesis using len by blast
qed

text \<open>
  After a pass with texts, both sides answer with the empty text: the record holds the
  two messages of the first pass and two messages of empty text.
\<close>

theorem empty_text_is_persisted_witness:
  "nanoid scripted (world (start_state silent)) = (id0, silent)
   \<and> Date_now scripted silent = (0, silent\<lparr>ticks := 1\<rparr>)
   \<and> (1::nat) < MAX_CONVERSATION_LENGTH
   \<and> map_option fst
        (after_turns scripted goal0 (''openaiGpt4o'' @ '':'' @ goal0) ''gpt-4o'' 1
           (console_put (Info (''=== Running case '' @ (''openaiGpt4o'' @ '':'' @ goal0) @ '' ===''))
              ((start_state silent)\<lparr>world := silent\<lparr>ticks := 1\<rparr>\<rparr>)))
       = Some [asks, answers]
   \<and> files (snd (runCase scripted goal0 ''openaiGpt4o'' ''gpt-4o'' (start_state silent)))
         (''./results/'' @ id0 @ ''.json'')
       = Some (ResultFile \<lparr>goal = goal0, modelName = ''openaiGpt4o'', model = ''gpt-4o'',
                            conversation = [asks, answers,
                                            \<lparr>sender = buyer, message = []\<rparr>,
                                            \<lparr>sender = store, message = []\<rparr>],
                            startTime = 0, endTime = 1\<rparr>)"
proof -
  let ?gm = "''openaiGpt4o'' @ '':'' @ goal0"
  let ?s1 = "console_put (Info (''=== Running case '' @ ?gm @ '' ===''))
               ((start_state silent)\<lparr>world := silent\<lparr>ticks := 1\<rparr>\<rparr>)"
  let ?at = "after_turns scripted goal0 ?gm ''gpt-4o'' 1 ?s1"
  let ?r = "\<lparr>gen_text = [], toolCalls = [], staticToolResults = []\<rparr>"
  have n: "nanoid scripted (world (start_state silent)) = (id0, silent)"
    by (simp add: scripted_def start_state_def)
  have d: "Date_now scripted silent = (0, silent\<lparr>ticks := 1\<rparr>)"
    by (simp add: scripted_def silent_def)
  have k: "(1::nat) < MAX_CONVERSATION_LENGTH"
    by (simp add: MAX_CONVERSATION_LENGTH_def)
  have c: "map_option fst ?at = Some [asks, answers]"
    by (simp add: sim_eval silent_def)
  have w: "map_option (\<lambda>p. text_replies (world (snd p))) ?at
             = Some [says [], says [], finishes [] []]"
    by (simp add: sim_eval silent_def)
  from c w obtain sk where
    a: "?at = Some ([asks, answers], sk)"
    and wk: "text_replies (world sk) = [says [], says [], finishes [] []]"
    by (cases ?at) auto
  have b: "generateText scripted ''gpt-4o'' (buyerRequest [asks, answers] goal0) (world sk)
             = (Inr ?r, (world sk)\<lparr>text_replies := [says [], finishes [] []]\<rparr>)"
    by (simp add: scripted_def wk says_def)
  have t: "\<not> list_ex (\<lambda>result. toolName result = ''finishedGoal'') (staticToolResults ?r)"
    by simp
  have st: "generateText scripted ''gpt-4o''
             (storeRequest ([asks, answers] @ [\<lparr>sender = buyer, message = gen_text ?r\<rparr>]))
             ((world sk)\<lparr>text_replies := [says [], finishes [] []]\<rparr>)
           = (Inr ?r, (world sk)\<lparr>text_replies := [finishes [] []]\<rparr>)"
    by (simp add: scripted_def says_def)
  have e: "list_ex (\<lambda>x. message x = []) (pass_messages ?r (Inr ?r))"
    by (simp add: pass_messages_def)
  have f: "files (snd (runCase scripted goal0 ''openaiGpt4o'' ''gpt-4o'' (start_state silent)))
             (''./results/'' @ id0 @ ''.json'')
           = Some (ResultFile \<lparr>goal = goal0, modelName = ''openaiGpt4o'', model = ''gpt-4o'',
                                conversation = [asks, answers,
                                                \<lparr>sender = buyer, message = []\<rparr>,
                                                \<lparr>sender = store, message = []\<rparr>],
                                startTime = 0, endTime = 1\<rparr>)"
    by (simp add: sim_eval silent_def resultPath_def)
  from empty_text_is_persisted[OF n d k a b t st e] n d k c f
  show ?thesis by simp
qed

section \<open>Properties of the judge\<close>

subsection \<open>C2: retries\<close>

text \<open>
  Claim C2, as amended. A call \<^verbatim>\<open>judge(id, run)\<close> sends the same request every time,
  once at least and twelve times at most: the first attempt and up to eleven retries.
  It ends by throwing exactly when twelve attempts in a row fail; it has then made all
  twelve and has written no file.
\<close>

theorem judge_retries_then_rethrows:
  "\<exists>n. 1 \<le> n \<and> n \<le> 12
     \<and> calls (snd (judge rt ident run 0 s))
         = calls s @ replicate n (ObjectCall (judger rt) (judgeMessages run))
     \<and> ((\<exists>e. fst (judge rt ident run 0 s) = Inl e)
          \<longleftrightarrow> after_failures rt (judgeMessages run) 12 (world s) \<noteq> None)
     \<and> ((\<exists>e. fst (judge rt ident run 0 s) = Inl e)
          \<longrightarrow> n = 12 \<and> files (snd (judge rt ident run 0 s)) = files s)"
proof -
  let ?msgs = "judgeMessages run"
  from failures_or_success[of rt ?msgs 12 "world s"] show ?thesis
  proof
    assume "after_failures rt ?msgs 12 (world s) \<noteq> None"
    then obtain w where w: "after_failures rt ?msgs (12 - 0) (world s) = Some w" by auto
    from judge_all_fail[OF w, of ident] w show ?thesis
      by (intro exI[of _ 12]) simp
  next
    assume "\<exists>k<12. \<exists>wk obj w'. after_failures rt ?msgs k (world s) = Some wk
                        \<and> generateObject rt ?msgs wk = (Inr obj, w')"
    then obtain k wk obj w' where
      k: "k < 12" and a: "after_failures rt ?msgs k (world s) = Some wk"
      and g: "generateObject rt ?msgs wk = (Inr obj, w')"
      by blast
    from k have b: "0 + k \<le> 11" by simp
    from success_ends_failures[OF a g k] have none: "after_failures rt ?msgs 12 (world s) = None" .
    from judge_after_failures[OF a b g, of ident] none k show ?thesis
      by (intro exI[of _ "Suc k"]) simp
  qed
qed

text \<open>Twelve failures: twelve requests, and no judgement file.\<close>

theorem judge_retries_then_rethrows_witness:
  "after_failures scripted (judgeMessages run0) 12 (judging (replicate 12 unavailable))
     = Some (judging [])
   \<and> length (calls (snd (judge scripted id0 run0 0 (start_state (judging (replicate 12 unavailable))))))
       = 12
   \<and> files (snd (judge scripted id0 run0 0 (start_state (judging (replicate 12 unavailable)))))
         (judgementPath id0) = None"
proof -
  let ?s = "start_state (judging (replicate 12 unavailable))"
  have a: "after_failures scripted (judgeMessages run0) 12 (judging (replicate 12 unavailable))
             = Some (judging [])"
    by (simp add: judge_eval eval_nat_numeral)
  then have b: "after_failures scripted (judgeMessages run0) 12 (world ?s) \<noteq> None"
    by (simp add: start_state_def)
  from judge_retries_then_rethrows[of scripted id0 run0 ?s] obtain n where
    c: "calls (snd (judge scripted id0 run0 0 ?s))
          = calls ?s @ replicate n (ObjectCall (judger scripted) (judgeMessages run0))"
    and i: "(\<exists>e. fst (judge scripted id0 run0 0 ?s) = Inl e)
              \<longleftrightarrow> after_failures scripted (judgeMessages run0) 12 (world ?s) \<noteq> None"
    and f: "(\<exists>e. fst (judge scripted id0 run0 0 ?s) = Inl e)
              \<longrightarrow> n = 12 \<and> files (snd (judge scripted id0 run0 0 ?s)) = files ?s"
    by blast
  from i b f have "n = 12" "files (snd (judge scripted id0 run0 0 ?s)) = files ?s"
    by blast+
  with c a show ?thesis by (simp add: start_state_def)
qed

text \<open>
  Claim C2 as first stated allows eleven attempts. When eleven attempts have failed the
  judge does not throw: it makes a twelfth, and if that succeeds the judgement is
  written.
\<close>

theorem eleven_attempts_counterexample:
  "after_failures scripted (judgeMessages run0) 11
       (judging (replicate 11 unavailable @ [Inr verdict]))
     = Some (judging [Inr verdict])
   \<and> fst (judge scripted id0 run0 0 (start_state (judging (replicate 11 unavailable @ [Inr verdict]))))
       = Inr ()
   \<and> length (calls (snd (judge scripted id0 run0 0
                 (start_state (judging (replicate 11 unavailable @ [Inr verdict])))))) = 12
   \<and> files (snd (judge scripted id0 run0 0
                 (start_state (judging (replicate 11 unavailable @ [Inr verdict])))))
         (judgementPath id0)
       = Some (JudgementFile (judged id0 run0 verdict_object))"
proof -
  let ?w = "judging (replicate 11 unavailable @ [Inr verdict])"
  have a: "after_failures scripted (judgeMessages run0) 11 ?w = Some (judging [Inr verdict])"
    by (simp add: judge_eval eval_nat_numeral)
  then have a': "after_failures scripted (judgeMessages run0) 11 (world (start_state ?w))
                   = Some (judging [Inr verdict])"
    by (simp add: start_state_def)
  have g: "generateObject scripted (judgeMessages run0) (judging [Inr verdict])
             = (Inr verdict_object, judging [])"
    by (simp add: judge_eval verdict_accepted)
  have b: "0 + (11::nat) \<le> 11" by simp
  from judge_after_failures[OF a' b g, of id0] a show ?thesis
    by (simp add: start_state_def)
qed

subsection \<open>C5: what the schema checks\<close>

text \<open>
  Claim C5, as amended. A result of \<^verbatim>\<open>judgerSchema\<close> has the four metrics quality,
  correctness, grammar and completeness and no other, and each of them is made of the
  string \<^verbatim>\<open>reasoning\<close> and the finite number \<^verbatim>\<open>score\<close> of the member of that name.
  Neither that the reasoning is not empty nor that the score lies within the documented
  scale is checked: there is a result with an empty reasoning and a score above 10.
\<close>

theorem judge_result_has_four_metrics:
  "(judgerSchema j = Some obj \<longrightarrow>
      (\<forall>(k, f) \<in> set [(''quality'', quality), (''correctness'', correctness),
                      (''grammar'', grammar), (''completeness'', completeness)].
         \<exists>v. member k j = Some v
            \<and> member ''reasoning'' v = Some (JString (reasoning (f obj)))
            \<and> member ''score'' v = Some (JNumber (Finite (score (f obj))))))
   \<and> (\<exists>j' obj'. judgerSchema j' = Some obj'
          \<and> reasoning (quality obj') = []
          \<and> 10 < real_of_double (score (quality obj')))"
proof
  show "judgerSchema j = Some obj \<longrightarrow>
      (\<forall>(k, f) \<in> set [(''quality'', quality), (''correctness'', correctness),
                      (''grammar'', grammar), (''completeness'', completeness)].
         \<exists>v. member k j = Some v
            \<and> member ''reasoning'' v = Some (JString (reasoning (f obj)))
            \<and> member ''score'' v = Some (JNumber (Finite (score (f obj)))))"
  proof
    assume "judgerSchema j = Some obj"
    from judgerSchema_Some[OF this] show
      "\<forall>(k, f) \<in> set [(''quality'', quality), (''correctness'', correctness),
                      (''grammar'', grammar), (''completeness'', completeness)].
         \<exists>v. member k j = Some v
            \<and> member ''reasoning'' v = Some (JString (reasoning (f obj)))
            \<and> member ''score'' v = Some (JNumber (Finite (score (f obj))))"
      by (simp add: z_member_metric_Some)
  qed
next
  let ?obj = "\<lparr>quality = \<lparr>reasoning = [], score = double 11 0\<rparr>,
              correctness = \<lparr>reasoning = [], score = double (- 3) 0\<rparr>,
              grammar = \<lparr>reasoning = [], score = double 11 0\<rparr>,
              completeness = \<lparr>reasoning = [], score = double 11 0\<rparr>\<rparr>"
  have "judgerSchema odd_verdict = Some ?obj \<and> reasoning (quality ?obj) = []
          \<and> 10 < real_of_double (score (quality ?obj))"
    by (simp add: odd_verdict_accepted double_of_small_int)
  then show "\<exists>j' obj'. judgerSchema j' = Some obj'
          \<and> reasoning (quality obj') = []
          \<and> 10 < real_of_double (score (quality obj'))"
    by blast
qed

text \<open>A verdict of the expected shape passes, and its metrics are those of its members.\<close>

theorem judge_result_has_four_metrics_witness:
  "judgerSchema verdict = Some verdict_object
   \<and> member ''completeness'' verdict
       = Some (metric_json ''No explicit confirmation.'' (double 3 (- 2)))
   \<and> member ''score'' (metric_json ''No explicit confirmation.'' (double 3 (- 2)))
       = Some (JNumber (Finite (score (completeness verdict_object))))"
proof -
  have a: "judgerSchema verdict = Some verdict_object"
    by (rule verdict_accepted)
  have m: "member ''completeness'' verdict
             = Some (metric_json ''No explicit confirmation.'' (double 3 (- 2)))"
    by (simp add: member_def verdict_def)
  from judge_result_has_four_metrics[of verdict verdict_object] a have
    "\<exists>v. member ''completeness'' verdict = Some v
        \<and> member ''reasoning'' v = Some (JString (reasoning (completeness verdict_object)))
        \<and> member ''score'' v = Some (JNumber (Finite (score (completeness verdict_object))))"
    by simp
  with m a show ?thesis by auto
qed

text \<open>
  Claim C5 as first stated asks for a non-empty reasoning and a score within the
  documented scale, which is 0 to 1 in the rubric and 0 to 10 in the description of the
  field. A verdict with empty reasonings and the scores 11 and -3 passes the schema, and
  the judge writes it as it is.
\<close>

theorem unchecked_metrics_counterexample:
  "judgerSchema odd_verdict
     = Some \<lparr>quality = \<lparr>reasoning = [], score = double 11 0\<rparr>,
             correctness = \<lparr>reasoning = [], score = double (- 3) 0\<rparr>,
             grammar = \<lparr>reasoning = [], score = double 11 0\<rparr>,
             completeness = \<lparr>reasoning = [], score = double 11 0\<rparr>\<rparr>
   \<and> real_of_double (double 11 0) = 11
   \<and> real_of_double (double (- 3) 0) = - 3
   \<and> fst (judge scripted id0 run0 0 (start_state (judging [Inr odd_verdict]))) = Inr ()
   \<and> files (snd (judge scripted id0 run0 0 (start_state (judging [Inr odd_verdict]))))
         (''./judgements/'' @ id0 @ ''.json'')
       = Some (JudgementFile
                 \<lparr>judged_id = id0,
                  judged_goal = goal0,
                  judged_modelName = ''openaiGpt4o'',
                  judged_startTime = 0,
                  judged_endTime = 1,
                  judged_conversation = [asks, answers],
                  judged_quality = \<lparr>reasoning = [], score = double 11 0\<rparr>,
                  judged_correctness = \<lparr>reasoning = [], score = double (- 3) 0\<rparr>,
                  judged_grammar = \<lparr>reasoning = [], score = double 11 0\<rparr>,
                  judged_completeness = \<lparr>reasoning = [], score = double 11 0\<rparr>\<rparr>)"
proof -
  let ?obj = "\<lparr>quality = \<lparr>reasoning = [], score = double 11 0\<rparr>,
              correctness = \<lparr>reasoning = [], score = double (- 3) 0\<rparr>,
              grammar = \<lparr>reasoning = [], score = double 11 0\<rparr>,
              completeness = \<lparr>reasoning = [], score = double 11 0\<rparr>\<rparr>"
  have a: "judgerSchema odd_verdict = Some ?obj"
    by (rule odd_verdict_accepted)
  have g: "generateObject scripted (judgeMessages run0)
             (world (start_state (judging [Inr odd_verdict]))) = (Inr ?obj, judging [])"
    by (simp add: judge_eval a)
  from judge_success(1,3)[OF g, of id0 0] a show ?thesis
    by (simp add: judged_def run0_def judgementPath_def double_of_small_int)
qed

subsection \<open>C8: the judged run keeps the run\<close>

text \<open>
  Claim C8. Let the run record \<open>run\<close> be in the file \<^verbatim>\<open>./results/<id>.json\<close>, where
  the identifier is not empty and has no dot, as the identifiers of the simulator are.
  When the body of the loop of \<^verbatim>\<open>judgeAll\<close> is run on the name of that file and the
  judge returns normally, then the judge was called with that identifier and that run,
  and the files have changed at one path only, \<^verbatim>\<open>./judgements/<id>.json\<close>, with the
  same identifier. The object written there has that identifier, the goal, model name,
  start time, end time and conversation of \<open>run\<close>, and the four metrics of the object that
  the successful attempt got back from the model.
\<close>

theorem judged_run_keeps_the_run:
  assumes "files s (''./results/'' @ ident @ ''.json'') = Some (ResultFile run)"
    and "ident \<noteq> []"
    and "CHR ''.'' \<notin> set ident"
    and "judgeFile rt (ident @ ''.json'') s = (Judged (Inr u), s')"
  shows "judge rt ident run 0 s = (Inr u, s')
           \<and> (\<exists>obj k wk. k \<le> 11
                 \<and> after_failures rt (judgeMessages run) k (world s) = Some wk
                 \<and> generateObject rt (judgeMessages run) wk = (Inr obj, world s')
                 \<and> files s'
                     = (files s)(''./judgements/'' @ ident @ ''.json'' \<mapsto>
                         JudgementFile
                           \<lparr>judged_id = ident,
                            judged_goal = goal run,
                            judged_modelName = modelName run,
                            judged_startTime = startTime run,
                            judged_endTime = endTime run,
                            judged_conversation = conversation run,
                            judged_quality = quality obj,
                            judged_correctness = correctness obj,
                            judged_grammar = grammar obj,
                            judged_completeness = completeness obj\<rparr>))"
proof -
  let ?msgs = "judgeMessages run"
  from judgeFile_of_run[OF assms(1,2,3), of rt] assms(4) have
    j: "fst (judge rt ident run 0 s) = Inr u" "snd (judge rt ident run 0 s) = s'"
    by simp_all
  then have ju: "judge rt ident run 0 s = (Inr u, s')"
    by (simp add: prod_eq_iff)
  from failures_or_success[of rt ?msgs 12 "world s"] show ?thesis
  proof
    assume "after_failures rt ?msgs 12 (world s) \<noteq> None"
    then obtain w where w: "after_failures rt ?msgs (12 - 0) (world s) = Some w" by auto
    from judge_all_fail[OF w, of ident] j(1) show ?thesis by auto
  next
    assume "\<exists>k<12. \<exists>wk obj w'. after_failures rt ?msgs k (world s) = Some wk
                        \<and> generateObject rt ?msgs wk = (Inr obj, w')"
    then obtain k wk obj w' where
      k: "k < 12" and a: "after_failures rt ?msgs k (world s) = Some wk"
      and g: "generateObject rt ?msgs wk = (Inr obj, w')"
      by blast
    from k have b: "0 + k \<le> 11" by simp
    from judge_after_failures[OF a b g, of ident] j(2) have
      "world s' = w'"
      "files s' = (files s)(judgementPath ident \<mapsto> JudgementFile (judged ident run obj))"
      by simp_all
    with a g k have "k \<le> 11
           \<and> after_failures rt ?msgs k (world s) = Some wk
           \<and> generateObject rt ?msgs wk = (Inr obj, world s')
           \<and> files s'
               = (files s)(''./judgements/'' @ ident @ ''.json'' \<mapsto>
                   JudgementFile (judged ident run obj))"
      by (simp add: judgementPath_def)
    then have "\<exists>obj k wk. k \<le> 11
           \<and> after_failures rt ?msgs k (world s) = Some wk
           \<and> generateObject rt ?msgs wk = (Inr obj, world s')
           \<and> files s'
               = (files s)(''./judgements/'' @ ident @ ''.json'' \<mapsto>
                   JudgementFile (judged ident run obj))"
      by blast
    with ju show ?thesis unfolding judged_def by blast
  qed
qed

text \<open>The file of \<open>run0\<close> under \<open>id0\<close>, and a first attempt that succeeds.\<close>

theorem judged_run_keeps_the_run_witness:
  "files (simulated (judging [Inr verdict])) (''./results/'' @ id0 @ ''.json'')
     = Some (ResultFile run0)
   \<and> id0 \<noteq> []
   \<and> CHR ''.'' \<notin> set id0
   \<and> fst (judgeFile scripted (id0 @ ''.json'') (simulated (judging [Inr verdict])))
       = Judged (Inr ())
   \<and> files (snd (judgeFile scripted (id0 @ ''.json'') (simulated (judging [Inr verdict]))))
         (''./judgements/'' @ id0 @ ''.json'')
       = Some (JudgementFile
                 \<lparr>judged_id = id0,
                  judged_goal = goal0,
                  judged_modelName = ''openaiGpt4o'',
                  judged_startTime = 0,
                  judged_endTime = 1,
                  judged_conversation = [asks, answers],
                  judged_quality = quality verdict_object,
                  judged_correctness = correctness verdict_object,
                  judged_grammar = grammar verdict_object,
                  judged_completeness = completeness verdict_object\<rparr>)
   \<and> files (snd (judgeFile scripted (id0 @ ''.json'') (simulated (judging [Inr verdict]))))
         (''./results/'' @ id0 @ ''.json'')
       = Some (ResultFile run0)"
proof -
  let ?s = "simulated (judging [Inr verdict])"
  let ?jf = "judgeFile scripted (id0 @ ''.json'') ?s"
  have f: "files ?s (''./results/'' @ id0 @ ''.json'') = Some (ResultFile run0)"
    by (simp add: simulated_def)
  have n: "id0 \<noteq> []" and d: "CHR ''.'' \<notin> set id0"
    by (simp_all add: id0_def)
  have g: "generateObject scripted (judgeMessages run0) (world ?s)
             = (Inr verdict_object, judging [])"
    by (simp add: judge_eval simulated_def verdict_accepted)
  from judge_success(1)[OF g, of id0 0] judgeFile_of_run[OF f n d, of scripted]
  have h1: "fst ?jf = Judged (Inr ())"
    by simp
  then have h: "?jf = (Judged (Inr ()), snd ?jf)"
    by (simp add: prod_eq_iff)
  from judged_run_keeps_the_run[OF f n d h] obtain obj k wk where
    k: "after_failures scripted (judgeMessages run0) k (world ?s) = Some wk"
    and o: "generateObject scripted (judgeMessages run0) wk = (Inr obj, world (snd ?jf))"
    and w: "files (snd ?jf)
              = (files ?s)(''./judgements/'' @ id0 @ ''.json'' \<mapsto>
                  JudgementFile
                    \<lparr>judged_id = id0,
                     judged_goal = goal run0,
                     judged_modelName = modelName run0,
                     judged_startTime = startTime run0,
                     judged_endTime = endTime run0,
                     judged_conversation = conversation run0,
                     judged_quality = quality obj,
                     judged_correctness = correctness obj,
                     judged_grammar = grammar obj,
                     judged_completeness = completeness obj\<rparr>)"
    by blast
  have "k = 0"
  proof (cases k)
    case 0
    then show ?thesis .
  next
    case (Suc j)
    with k g show ?thesis by simp
  qed
  with k g o have "obj = verdict_object" by simp
  with w f h1 n d show ?thesis by (simp add: run0_def)
qed

subsection \<open>C9: a success after failures is like a success at once\<close>

text \<open>
  Claim C9. Let the first \<open>k\<close> attempts fail, \<open>k\<close> being 11 at most, and let the next
  one return \<open>obj\<close>. Then the judge returns normally and has changed the files at the
  judgement path of the run only, where it has written the run with the metrics of
  \<open>obj\<close>. A judge whose first attempt returns \<open>obj\<close>, started on the same files, leaves
  the same files.
\<close>

theorem retry_idempotence:
  assumes "k \<le> 11"
    and "after_failures rt (judgeMessages run) k (world s) = Some wk"
    and "generateObject rt (judgeMessages run) wk = (Inr obj, w)"
    and "generateObject rt' (judgeMessages run) (world t) = (Inr obj, v)"
    and "files t = files s"
  shows "fst (judge rt ident run 0 s) = Inr ()
     \<and> files (snd (judge rt ident run 0 s))
         = (files s)(judgementPath ident \<mapsto> JudgementFile (judged ident run obj))
     \<and> fst (judge rt' ident run 0 t) = Inr ()
     \<and> files (snd (judge rt' ident run 0 t)) = files (snd (judge rt ident run 0 s))"
proof -
  from assms(1) have b: "0 + k \<le> 11" by simp
  from judge_after_failures[OF assms(2) b assms(3), of ident]
       judge_success[OF assms(4), of ident 0] assms(5)
  show ?thesis by simp
qed

text \<open>
  A failed call and a reply that does not pass the schema, then a good verdict; against
  a good verdict at once.
\<close>

theorem retry_idempotence_witness:
  "(2::nat) \<le> 11
   \<and> after_failures scripted (judgeMessages run0) 2
       (world (start_state (judging [unavailable, Inr JNull, Inr verdict])))
       = Some (judging [Inr verdict])
   \<and> generateObject scripted (judgeMessages run0) (judging [Inr verdict])
       = (Inr verdict_object, judging [])
   \<and> fst (judge scripted id0 run0 0 (start_state (judging [unavailable, Inr JNull, Inr verdict])))
       = Inr ()
   \<and> files (snd (judge scripted id0 run0 0 (start_state (judging [Inr verdict]))))
       = files (snd (judge scripted id0 run0 0
                  (start_state (judging [unavailable, Inr JNull, Inr verdict]))))"
proof -
  let ?s = "start_state (judging [unavailable, Inr JNull, Inr verdict])"
  let ?t = "start_state (judging [Inr verdict])"
  have k: "(2::nat) \<le> 11" by simp
  have a: "after_failures scripted (judgeMessages run0) 2 (world ?s) = Some (judging [Inr verdict])"
    by (simp add: judge_eval eval_nat_numeral schema_eval)
  have g: "generateObject scripted (judgeMessages run0) (judging [Inr verdict])
             = (Inr verdict_object, judging [])"
    by (simp add: judge_eval verdict_accepted)
  have g': "generateObject scripted (judgeMessages run0) (world ?t)
             = (Inr verdict_object, judging [])"
    by (simp add: judge_eval verdict_accepted)
  have f: "files ?t = files ?s"
    by (simp add: start_state_def)
  from retry_idempotence[OF k a g g' f, of id0] k a g show ?thesis by simp
qed

end
